theory Spec2Isabelle
  imports Complex_Main "HOL-Library.Multiset"
begin

section \<open>Python values\<close>

text \<open>
  A product record is a Python dictionary with string keys (\<open>Dict[str, Any]\<close>). The
  scheduler loads the records from JSON files, so a value is a JSON value. A float is
  represented by the rational number it denotes (NaN and the infinities are left out).
  A dictionary is an association list read with \<open>map_of\<close>.
\<close>

datatype json =
    JNull
  | JBool bool
  | JInt int
  | JFloat rat
  | JStr string
  | JList "json list"
  | JDict "(string \<times> json) list"

type_synonym pydict = "(string \<times> json) list"

datatype py_error =
    AttributeError
  | BindingError
  | OverflowError
  | IntegrityError
  | OperationalError
  | OtherError string

text \<open>Python truthiness, as \<open>if x:\<close> and \<open>if not x:\<close> read it.\<close>

fun truthy :: "json \<Rightarrow> bool" where
  "truthy JNull = False"
| "truthy (JBool b) = b"
| "truthy (JInt i) = (i \<noteq> 0)"
| "truthy (JFloat r) = (r \<noteq> 0)"
| "truthy (JStr s) = (s \<noteq> [])"
| "truthy (JList xs) = (xs \<noteq> [])"
| "truthy (JDict kvs) = (kvs \<noteq> [])"

text \<open>\<open>d.get(k, default)\<close>\<close>

definition dict_get :: "pydict \<Rightarrow> string \<Rightarrow> json \<Rightarrow> json" where
  "dict_get d k dflt = (case map_of d k of None \<Rightarrow> dflt | Some v \<Rightarrow> v)"

text \<open>\<open>s.split(sep)\<close> for a one-character separator: never the empty list.\<close>

fun split_on :: "char \<Rightarrow> string \<Rightarrow> string list" where
  "split_on sep [] = [[]]"
| "split_on sep (c # cs) =
     (if c = sep then [] # split_on sep cs
      else (case split_on sep cs of
              [] \<Rightarrow> [[c]]
            | p # ps \<Rightarrow> (c # p) # ps))"

text \<open>\<open>int(x)\<close> of a float truncates towards zero.\<close>

definition py_int :: "rat \<Rightarrow> int" where
  "py_int r = (if 0 \<le> r then \<lfloor>r\<rfloor> else \<lceil>r\<rceil>)"

text \<open>\<open>str(n)\<close> of an integer: its decimal digits, with a minus sign when negative.\<close>

fun digit_char :: "nat \<Rightarrow> char" where
  "digit_char n = char_of (48 + n)"

fun str_nat :: "nat \<Rightarrow> string" where
  "str_nat n = (if n < 10 then [digit_char n] else str_nat (n div 10) @ [digit_char (n mod 10)])"

declare str_nat.simps [simp del]

definition py_str_int :: "int \<Rightarrow> string" where
  "py_str_int i = (if i < 0 then CHR ''-'' # str_nat (nat (- i)) else str_nat (nat i))"

section \<open>The product store (database.py)\<close>

text \<open>
  SQLite values as the \<open>sqlite3\<close> module binds them. Binding a list or a dictionary
  raises, and so does an integer outside 64 bits; \<open>bool\<close> is a subclass of \<open>int\<close>.
\<close>

datatype sqlval = SNull | SInt int | SReal rat | SText string

fun bind :: "json \<Rightarrow> py_error + sqlval" where
  "bind JNull = Inr SNull"
| "bind (JBool b) = Inr (SInt (if b then 1 else 0))"
| "bind (JInt i) =
     (if - (2 ^ 63) \<le> i \<and> i < 2 ^ 63 then Inr (SInt i) else Inl OverflowError)"
| "bind (JFloat r) = Inr (SReal r)"
| "bind (JStr s) = Inr (SText s)"
| "bind (JList xs) = Inl BindingError"
| "bind (JDict kvs) = Inl BindingError"

text \<open>The parameters of one statement are bound in order; the first failure raises.\<close>

fun bind_all :: "json list \<Rightarrow> py_error + sqlval list" where
  "bind_all [] = Inr []"
| "bind_all (v # vs) =
     (case bind v of
        Inl e \<Rightarrow> Inl e
      | Inr b \<Rightarrow> (case bind_all vs of Inl e \<Rightarrow> Inl e | Inr bs \<Rightarrow> Inr (b # bs)))"

text \<open>
  \<open>a = b\<close> between two values that are compared as they are: \<open>NULL\<close> equals nothing,
  an integer and a real are compared as numbers, a text equals only the same text.
\<close>

fun sql_eq :: "sqlval \<Rightarrow> sqlval \<Rightarrow> bool" where
  "sql_eq (SInt i) (SInt j) = (i = j)"
| "sql_eq (SInt i) (SReal r) = (of_int i = r)"
| "sql_eq (SReal r) (SInt j) = (r = of_int j)"
| "sql_eq (SReal r) (SReal q) = (r = q)"
| "sql_eq (SText s) (SText t) = (s = t)"
| "sql_eq _ _ = False"

text \<open>
  The table \<open>products\<close> (\<open>id TEXT PRIMARY KEY\<close>, \<open>retailer\<close>, \<open>title\<close>, \<open>url\<close> and
  \<open>data\<close> \<open>NOT NULL\<close>, \<open>price REAL\<close>) and the FTS5 table \<open>product_search\<close>, which has
  no key and no column types. The column \<open>data\<close> holds \<open>json.dumps(product_data)\<close>; the
  text is represented by the value it encodes, so \<open>json.loads\<close> of the column is the
  stored dictionary.
\<close>

record product_row =
  p_id :: sqlval
  p_retailer :: sqlval
  p_title :: sqlval
  p_description :: sqlval
  p_price :: sqlval
  p_brand :: sqlval
  p_category :: sqlval
  p_url :: sqlval
  p_data :: pydict
  p_created_at :: int
  p_updated_at :: int

record search_row =
  s_id :: sqlval
  s_title :: sqlval
  s_description :: sqlval
  s_brand :: sqlval
  s_category :: sqlval

record database =
  products :: "product_row list"
  product_search :: "search_row list"

text \<open>
  What is SQLite's own is a parameter of the model:
  \<^item> \<open>real_text\<close>, the text that a real number becomes when it is stored in a column
    declared \<open>TEXT\<close>;
  \<^item> \<open>text_number\<close>, the number that a text becomes when it is stored in a column declared
    \<open>REAL\<close> and looks like a number (\<open>None\<close> when it does not);
  \<^item> \<open>fts_match\<close>, the FTS5 \<open>product_search MATCH ?\<close>: given the query text it either
    rejects it (a syntax error, \<open>OperationalError\<close>) or gives the predicate that selects
    the matching rows of the index. A row of the index carries the columns \<open>id\<close>,
    \<open>title\<close>, \<open>description\<close>, \<open>brand\<close>, \<open>category\<close>, and \<open>MATCH\<close> on the table name reads
    all of them;
  \<^item> \<open>max_variables\<close>, the bound on the number of \<open>?\<close> parameters of one statement
    (\<open>SQLITE_MAX_VARIABLE_NUMBER\<close>): a statement with more raises;
  \<^item> \<open>row_order\<close>, the order in which \<open>ORDER BY updated_at DESC\<close> returns the selected
    rows. SQL fixes it only up to the order of rows with equal \<open>updated_at\<close>.
\<close>

record engine =
  real_text :: "rat \<Rightarrow> string"
  text_number :: "string \<Rightarrow> rat option"
  fts_match :: "string \<Rightarrow> (search_row \<Rightarrow> bool) option"
  max_variables :: nat
  row_order :: "product_row list \<Rightarrow> product_row list"

text \<open>
  Column affinity. A value stored in a \<open>TEXT\<close> column, or compared with one, is converted
  to text when it is a number: an integer to its decimal digits, a real to the engine's
  text for it. A value stored in the \<open>REAL\<close> column \<open>price\<close> is converted to a real when
  it is an integer or a text that looks like a number; any other text is kept. \<open>NULL\<close>
  stays \<open>NULL\<close>. The columns of \<open>product_search\<close> have no affinity: they keep the
  values as bound.
\<close>

fun text_affinity :: "engine \<Rightarrow> sqlval \<Rightarrow> sqlval" where
  "text_affinity eng SNull = SNull"
| "text_affinity eng (SInt i) = SText (py_str_int i)"
| "text_affinity eng (SReal r) = SText (real_text eng r)"
| "text_affinity eng (SText s) = SText s"

fun real_affinity :: "engine \<Rightarrow> sqlval \<Rightarrow> sqlval" where
  "real_affinity eng SNull = SNull"
| "real_affinity eng (SInt i) = SReal (of_int i)"
| "real_affinity eng (SReal r) = SReal r"
| "real_affinity eng (SText s) =
     (case text_number eng s of None \<Rightarrow> SText s | Some r \<Rightarrow> SReal r)"

text \<open>
  \<open>SELECT id, updated_at FROM products WHERE id = ?\<close> followed by \<open>fetchone()\<close>. The
  column \<open>id\<close> is \<open>TEXT\<close>, so the parameter is compared as text.
\<close>

definition select_existing :: "engine \<Rightarrow> database \<Rightarrow> json \<Rightarrow> py_error + product_row option" where
  "select_existing eng db product_id =
     (case bind product_id of
        Inl e \<Rightarrow> Inl e
      | Inr pid \<Rightarrow> Inr (find (\<lambda>r. sql_eq (p_id r) (text_affinity eng pid)) (products db)))"

text \<open>
  \<open>cursor.execute(sql, params)\<close> binds the parameters and then runs the statement on
  the bound values. The statements below take the bound values; a list of the wrong
  length is the module's error for a wrong number of bindings.

  \<open>UPDATE products SET retailer = ?, title = ?, description = ?, price = ?, brand = ?,
  category = ?, url = ?, data = ?, updated_at = ? WHERE id = ?\<close>.
  A \<open>NOT NULL\<close> violation aborts the statement and leaves the table as it was. The
  values are stored with the affinity of their columns.
\<close>

definition sql_int :: "int \<Rightarrow> py_error + int" where
  "sql_int i = (if - (2 ^ 63) \<le> i \<and> i < 2 ^ 63 then Inr i else Inl OverflowError)"

fun sql_update ::
  "engine \<Rightarrow> database \<Rightarrow> sqlval list \<Rightarrow> pydict \<Rightarrow> int \<Rightarrow> py_error + database" where
  "sql_update eng db
       [b_retailer, b_title, b_description, b_price, b_brand, b_category, b_url, b_id]
       data_json b_now =
     (if (\<exists>r \<in> set (products db). sql_eq (p_id r) (text_affinity eng b_id)) \<and>
         (b_retailer = SNull \<or> b_title = SNull \<or> b_url = SNull)
      then Inl IntegrityError
      else Inr (db\<lparr>products :=
             map (\<lambda>r. if sql_eq (p_id r) (text_affinity eng b_id)
                      then r\<lparr>p_retailer := text_affinity eng b_retailer,
                             p_title := text_affinity eng b_title,
                             p_description := text_affinity eng b_description,
                             p_price := real_affinity eng b_price,
                             p_brand := text_affinity eng b_brand,
                             p_category := text_affinity eng b_category,
                             p_url := text_affinity eng b_url,
                             p_data := data_json, p_updated_at := b_now\<rparr>
                      else r)
                 (products db)\<rparr>))"
| "sql_update eng db _ data_json b_now = Inl BindingError"

definition exec_update ::
  "engine \<Rightarrow> database \<Rightarrow> json \<Rightarrow> json \<Rightarrow> json \<Rightarrow> json \<Rightarrow> json \<Rightarrow> json \<Rightarrow> json \<Rightarrow> pydict \<Rightarrow> int
     \<Rightarrow> json \<Rightarrow> py_error + database" where
  "exec_update eng db retailer title description price brand category url data_json now
       product_id =
     (case bind_all [retailer, title, description, price, brand, category, url, product_id] of
        Inl e \<Rightarrow> Inl e
      | Inr bs \<Rightarrow>
          (case sql_int now of
             Inl e \<Rightarrow> Inl e
           | Inr b_now \<Rightarrow> sql_update eng db bs data_json b_now))"

text \<open>
  \<open>INSERT INTO products (id, retailer, title, description, price, brand, category, url,
  data, created_at, updated_at) VALUES (...)\<close>. The primary key and the \<open>NOT NULL\<close>
  columns are checked by the engine: the key is the id as the \<open>TEXT\<close> column holds it.
\<close>

fun sql_insert ::
  "engine \<Rightarrow> database \<Rightarrow> sqlval list \<Rightarrow> pydict \<Rightarrow> int \<Rightarrow> py_error + database" where
  "sql_insert eng db
       [b_id, b_retailer, b_title, b_description, b_price, b_brand, b_category, b_url]
       data_json b_now =
     (if b_retailer = SNull \<or> b_title = SNull \<or> b_url = SNull
         \<or> (\<exists>r \<in> set (products db). sql_eq (p_id r) (text_affinity eng b_id))
      then Inl IntegrityError
      else Inr (db\<lparr>products := products db @
             [\<lparr>p_id = text_affinity eng b_id,
               p_retailer = text_affinity eng b_retailer,
               p_title = text_affinity eng b_title,
               p_description = text_affinity eng b_description,
               p_price = real_affinity eng b_price,
               p_brand = text_affinity eng b_brand,
               p_category = text_affinity eng b_category,
               p_url = text_affinity eng b_url, p_data = data_json,
               p_created_at = b_now, p_updated_at = b_now\<rparr>]\<rparr>))"
| "sql_insert eng db _ data_json b_now = Inl BindingError"

definition exec_insert ::
  "engine \<Rightarrow> database \<Rightarrow> json \<Rightarrow> json \<Rightarrow> json \<Rightarrow> json \<Rightarrow> json \<Rightarrow> json \<Rightarrow> json \<Rightarrow> json \<Rightarrow> pydict
     \<Rightarrow> int \<Rightarrow> py_error + database" where
  "exec_insert eng db product_id retailer title description price brand category url data_json
       now =
     (case bind_all [product_id, retailer, title, description, price, brand, category, url] of
        Inl e \<Rightarrow> Inl e
      | Inr bs \<Rightarrow>
          (case sql_int now of
             Inl e \<Rightarrow> Inl e
           | Inr b_now \<Rightarrow> sql_insert eng db bs data_json b_now))"

text \<open>
  \<open>DELETE FROM product_search WHERE id = ?\<close>: the column has no affinity, so the
  parameter is compared as bound.
\<close>

definition search_delete :: "database \<Rightarrow> json \<Rightarrow> py_error + database" where
  "search_delete db product_id =
     (case bind product_id of
        Inl e \<Rightarrow> Inl e
      | Inr pid \<Rightarrow>
          Inr (db\<lparr>product_search :=
                 filter (\<lambda>s. \<not> sql_eq (s_id s) pid) (product_search db)\<rparr>))"

text \<open>\<open>INSERT INTO product_search (id, title, description, brand, category) VALUES (...)\<close>\<close>

fun sql_search_insert :: "database \<Rightarrow> sqlval list \<Rightarrow> py_error + database" where
  "sql_search_insert db [b_id, b_title, b_description, b_brand, b_category] =
     Inr (db\<lparr>product_search := product_search db @
            [\<lparr>s_id = b_id, s_title = b_title, s_description = b_description,
              s_brand = b_brand, s_category = b_category\<rparr>]\<rparr>)"
| "sql_search_insert db _ = Inl BindingError"

definition search_insert ::
  "database \<Rightarrow> json \<Rightarrow> json \<Rightarrow> json \<Rightarrow> json \<Rightarrow> json \<Rightarrow> py_error + database" where
  "search_insert db product_id title description brand category =
     (case bind_all [product_id, title, description, brand, category] of
        Inl e \<Rightarrow> Inl e
      | Inr bs \<Rightarrow> sql_search_insert db bs)"

subsection \<open>upsert_product and bulk_upsert_products\<close>

text \<open>
  Lines 109-117 and 224-231: the identity of a record whose url is truthy. \<open>t\<close> is the
  reading of \<open>time.time()\<close> that the fallback would take. A truthy url that is not a
  string has no \<open>split\<close>.
\<close>

definition derive_id :: "rat \<Rightarrow> pydict \<Rightarrow> py_error + json" where
  "derive_id t product_data =
     (let url = dict_get product_data ''url'' (JStr '''');
          product_id = dict_get product_data ''id'' (JStr '''')
      in if truthy product_id then Inr product_id
         else (case url of
                 JStr u \<Rightarrow>
                   (let url_parts = split_on CHR ''/'' u;
                        product_id = (if url_parts \<noteq> [] then last url_parts else '''')
                    in if product_id \<noteq> '''' then Inr (JStr product_id)
                       else Inr (JStr (py_str_int (py_int (t * 1000)))))
               | _ \<Rightarrow> Inl AttributeError))"

text \<open>Lines 126-132 and 240-246: the price column.\<close>

definition extract_price :: "pydict \<Rightarrow> json" where
  "extract_price product_data =
     (let price_data = dict_get product_data ''price'' (JDict [])
      in case price_data of
           JDict d \<Rightarrow> dict_get d ''current'' JNull
         | JBool b \<Rightarrow> price_data
         | JInt i \<Rightarrow> price_data
         | JFloat r \<Rightarrow> price_data
         | _ \<Rightarrow> JNull)"

text \<open>
  Lines 109-182 and 224-288, the same text in both functions: the statements run for one
  record whose url is truthy. \<open>tm\<close> holds the two readings of \<open>time.time()\<close> (the id
  fallback's and \<open>now\<close>'s). The result is the exception raised, if any, and the database
  as the statements run so far have left it.
\<close>

definition upsert_record ::
  "engine \<Rightarrow> database \<Rightarrow> rat \<times> rat \<Rightarrow> pydict \<Rightarrow> py_error option \<times> database" where
  "upsert_record eng db tm product_data =
     (case derive_id (fst tm) product_data of
        Inl e \<Rightarrow> (Some e, db)
      | Inr product_id \<Rightarrow>
          (let url = dict_get product_data ''url'' (JStr '''');
               retailer = dict_get product_data ''retailer'' (JStr '''');
               title = dict_get product_data ''title'' (JStr '''');
               description = dict_get product_data ''description'' (JStr '''');
               brand = dict_get product_data ''brand'' (JStr '''');
               category = dict_get product_data ''category'' (JStr '''');
               price = extract_price product_data;
               data_json = product_data;
               now = py_int (snd tm)
           in case select_existing eng db product_id of
                Inl e \<Rightarrow> (Some e, db)
              | Inr existing \<Rightarrow>
                  (case (if existing \<noteq> None
                         then exec_update eng db retailer title description price brand
                                category url data_json now product_id
                         else exec_insert eng db product_id retailer title description price
                                brand category url data_json now) of
                     Inl e \<Rightarrow> (Some e, db)
                   | Inr db1 \<Rightarrow>
                       (case search_delete db1 product_id of
                          Inl e \<Rightarrow> (Some e, db1)
                        | Inr db2 \<Rightarrow>
                            (case search_insert db2 product_id title description brand category of
                               Inl e \<Rightarrow> (Some e, db2)
                             | Inr db3 \<Rightarrow> (None, db3))))))"

text \<open>
  \<open>upsert_product\<close>: a falsy url returns \<open>False\<close> before the connection is opened. An
  exception is caught and \<open>False\<close> returned; the connection is dropped without a commit,
  so nothing of the statements run so far is kept.
\<close>

definition upsert_product ::
  "engine \<Rightarrow> database \<Rightarrow> rat \<times> rat \<Rightarrow> pydict \<Rightarrow> bool \<times> database" where
  "upsert_product eng db tm product_data =
     (if \<not> truthy (dict_get product_data ''url'' (JStr '''')) then (False, db)
      else (case upsert_record eng db tm product_data of
              (None, db') \<Rightarrow> (True, db')
            | (Some e, db') \<Rightarrow> (False, db)))"

text \<open>
  \<open>bulk_upsert_products\<close>: one transaction around the loop. A record without url is
  counted as a failure and skipped; an exception on a record is caught inside the loop
  and counted, and the statements already run for that record stay in the transaction.
  Each record comes with the clock readings taken while it is processed.
\<close>

fun bulk_loop ::
  "engine \<Rightarrow> database \<Rightarrow> ((rat \<times> rat) \<times> pydict) list \<Rightarrow> nat \<Rightarrow> nat
     \<Rightarrow> (nat \<times> nat) \<times> database" where
  "bulk_loop eng db [] success_count failure_count = ((success_count, failure_count), db)"
| "bulk_loop eng db ((tm, product_data) # rest) success_count failure_count =
     (if \<not> truthy (dict_get product_data ''url'' (JStr ''''))
      then bulk_loop eng db rest success_count (failure_count + 1)
      else (case upsert_record eng db tm product_data of
              (None, db') \<Rightarrow> bulk_loop eng db' rest (success_count + 1) failure_count
            | (Some e, db') \<Rightarrow> bulk_loop eng db' rest success_count (failure_count + 1)))"

definition bulk_upsert_products ::
  "engine \<Rightarrow> database \<Rightarrow> ((rat \<times> rat) \<times> pydict) list \<Rightarrow> (nat \<times> nat) \<times> database" where
  "bulk_upsert_products eng db products_in = bulk_loop eng db products_in 0 0"

text \<open>
  \<open>get_product_by_id\<close>: \<open>SELECT data FROM products WHERE id = ?\<close>, \<open>fetchone()\<close>,
  \<open>json.loads\<close>; an exception gives \<open>None\<close>. The parameter is compared as text, as
  in \<open>select_existing\<close>.
\<close>

definition get_product_by_id :: "engine \<Rightarrow> database \<Rightarrow> json \<Rightarrow> pydict option" where
  "get_product_by_id eng db product_id =
     (case bind product_id of
        Inl e \<Rightarrow> None
      | Inr pid \<Rightarrow>
          (case find (\<lambda>r. sql_eq (p_id r) (text_affinity eng pid)) (products db) of
             None \<Rightarrow> None
           | Some row \<Rightarrow> Some (p_data row)))"

subsection \<open>find_products\<close>

text \<open>\<open>query.replace('"', '""')\<close>\<close>

definition escape_quotes :: "string \<Rightarrow> string" where
  "escape_quotes q = concat (map (\<lambda>c. if c = CHR 0x22 then [c, c] else [c]) q)"

text \<open>
  \<open>price >= ?\<close> and \<open>price <= ?\<close> against a number: \<open>NULL\<close> compares to nothing, and a
  text value sorts after every number.
\<close>

fun price_ge :: "sqlval \<Rightarrow> rat \<Rightarrow> bool" where
  "price_ge SNull m = False"
| "price_ge (SInt i) m = (m \<le> of_int i)"
| "price_ge (SReal r) m = (m \<le> r)"
| "price_ge (SText s) m = True"

fun price_le :: "sqlval \<Rightarrow> rat \<Rightarrow> bool" where
  "price_le SNull m = False"
| "price_le (SInt i) m = (of_int i \<le> m)"
| "price_le (SReal r) m = (r \<le> m)"
| "price_le (SText s) m = False"









subsection \<open>What one upsert writes\<close>

text \<open>
  The statements of \<open>upsert_record\<close> either all run or none changes a table. These
  definitions name the condition under which they run and the rows they write; the
  lemmas below prove that \<open>upsert_record\<close> does exactly this.
\<close>

definition bindable :: "json \<Rightarrow> bool" where
  "bindable v = (case bind v of Inl e \<Rightarrow> False | Inr b \<Rightarrow> True)"

definition bound :: "json \<Rightarrow> sqlval" where
  "bound v = (case bind v of Inl e \<Rightarrow> SNull | Inr b \<Rightarrow> b)"

definition get_field :: "pydict \<Rightarrow> string \<Rightarrow> json" where
  "get_field product_data k = dict_get product_data k (JStr '''')"

definition storable :: "json \<Rightarrow> pydict \<Rightarrow> int \<Rightarrow> bool" where
  "storable product_id product_data now \<longleftrightarrow>
     bindable product_id \<and> bindable (get_field product_data ''retailer'') \<and>
     bindable (get_field product_data ''title'') \<and> bindable (get_field product_data ''description'') \<and>
     bindable (extract_price product_data) \<and> bindable (get_field product_data ''brand'') \<and>
     bindable (get_field product_data ''category'') \<and> bindable (get_field product_data ''url'') \<and>
     bound (get_field product_data ''retailer'') \<noteq> SNull \<and>
     bound (get_field product_data ''title'') \<noteq> SNull \<and>
     bound (get_field product_data ''url'') \<noteq> SNull \<and>
     - (2 ^ 63) \<le> now \<and> now < 2 ^ 63"

text \<open>The key of \<open>products\<close> under which an id is stored and looked up.\<close>

definition key_of :: "engine \<Rightarrow> json \<Rightarrow> sqlval" where
  "key_of eng product_id = text_affinity eng (bound product_id)"

definition stored_row :: "engine \<Rightarrow> json \<Rightarrow> pydict \<Rightarrow> int \<Rightarrow> int \<Rightarrow> product_row" where
  "stored_row eng product_id product_data created now =
     \<lparr>p_id = key_of eng product_id,
      p_retailer = text_affinity eng (bound (get_field product_data ''retailer'')),
      p_title = text_affinity eng (bound (get_field product_data ''title'')),
      p_description = text_affinity eng (bound (get_field product_data ''description'')),
      p_price = real_affinity eng (bound (extract_price product_data)),
      p_brand = text_affinity eng (bound (get_field product_data ''brand'')),
      p_category = text_affinity eng (bound (get_field product_data ''category'')),
      p_url = text_affinity eng (bound (get_field product_data ''url'')),
      p_data = product_data,
      p_created_at = created,
      p_updated_at = now\<rparr>"

definition index_row :: "json \<Rightarrow> pydict \<Rightarrow> search_row" where
  "index_row product_id product_data =
     \<lparr>s_id = bound product_id,
      s_title = bound (get_field product_data ''title''),
      s_description = bound (get_field product_data ''description''),
      s_brand = bound (get_field product_data ''brand''),
      s_category = bound (get_field product_data ''category'')\<rparr>"

definition written :: "engine \<Rightarrow> database \<Rightarrow> json \<Rightarrow> pydict \<Rightarrow> int \<Rightarrow> database" where
  "written eng db product_id product_data now =
     \<lparr>products =
        (if \<exists>r \<in> set (products db). sql_eq (p_id r) (key_of eng product_id)
         then map (\<lambda>r. if sql_eq (p_id r) (key_of eng product_id)
                        then stored_row eng product_id product_data (p_created_at r) now else r)
                (products db)
         else products db @ [stored_row eng product_id product_data now now]),
      product_search =
        filter (\<lambda>s. \<not> sql_eq (s_id s) (bound product_id)) (product_search db)
          @ [index_row product_id product_data]\<rparr>"

text \<open>
  The rows that \<open>WHERE id = ?\<close> selects in each table: in \<open>products\<close> for a key, in the
  index for an id as bound.
\<close>

definition rows_with_id :: "database \<Rightarrow> sqlval \<Rightarrow> product_row list" where
  "rows_with_id db b = filter (\<lambda>r. sql_eq (p_id r) b) (products db)"


text \<open>
  A record that lacks a url (the key is missing or its value is the empty string), and
  a record that \<open>upsert_record\<close> stores at the clock readings \<open>tm\<close>.
\<close>

definition lacks_url :: "pydict \<Rightarrow> bool" where
  "lacks_url product_data \<longleftrightarrow>
     map_of product_data ''url'' = None \<or> map_of product_data ''url'' = Some (JStr '''')"

definition record_id :: "rat \<times> rat \<Rightarrow> pydict \<Rightarrow> json" where
  "record_id tm product_data =
     (case derive_id (fst tm) product_data of Inl e \<Rightarrow> JNull | Inr product_id \<Rightarrow> product_id)"

definition valid_record :: "rat \<times> rat \<Rightarrow> pydict \<Rightarrow> bool" where
  "valid_record tm product_data \<longleftrightarrow>
     truthy (get_field product_data ''url'') \<and>
     (case derive_id (fst tm) product_data of
        Inl e \<Rightarrow> False
      | Inr product_id \<Rightarrow> storable product_id product_data (py_int (snd tm)))"

text \<open>The substring after the final \<open>/\<close> of a url (the whole url when it has none).\<close>

definition after_final_slash :: "string \<Rightarrow> string" where
  "after_final_slash u = rev (takeWhile (\<lambda>c. c \<noteq> CHR ''/'') (rev u))"

text \<open>
  The identity as the specification words it: the explicit \<open>id\<close> field if it is
  non-empty, else the last path segment of the url, else a synthetic id made from the
  clock.
\<close>

definition spec_identity :: "rat \<Rightarrow> pydict \<Rightarrow> string \<Rightarrow> json" where
  "spec_identity t product_data u =
     (if truthy (get_field product_data ''id'') then get_field product_data ''id''
      else if after_final_slash u \<noteq> [] then JStr (after_final_slash u)
      else JStr (py_str_int (py_int (t * 1000))))"



subsection \<open>Examples\<close>

text \<open>
  The test product of the module's \<open>__main__\<close> block, a later crawl of the same page
  (same url, changed title and price), a record without url, a second product, and an
  empty store.
\<close>

definition test_product :: pydict where
  "test_product =
     [(''url'', JStr ''https://www.example.com/product/123''),
      (''retailer'', JStr ''TestRetailer''),
      (''title'', JStr ''Test Product''),
      (''description'', JStr ''This is a test product''),
      (''price'', JDict [(''current'', JFloat (9999 / 100)), (''currency'', JStr ''ZAR'')]),
      (''brand'', JStr ''TestBrand''),
      (''category'', JStr ''TestCategory'')]"

definition test_product_v2 :: pydict where
  "test_product_v2 =
     [(''url'', JStr ''https://www.example.com/product/123''),
      (''retailer'', JStr ''TestRetailer''),
      (''title'', JStr ''Test Product, new title''),
      (''price'', JDict [(''current'', JInt 89), (''currency'', JStr ''ZAR'')])]"

definition product_without_url :: pydict where
  "product_without_url = [(''retailer'', JStr ''TestRetailer''), (''title'', JStr ''Rooibos Tea'')]"

definition other_product :: pydict where
  "other_product =
     [(''url'', JStr ''https://www.example.com/product/456''),
      (''retailer'', JStr ''TestRetailer''),
      (''title'', JStr ''Filter Coffee''),
      (''price'', JInt 75)]"

definition empty_db :: database where
  "empty_db = \<lparr>products = [], product_search = []\<rparr>"

text \<open>
  Two records for the same page, one with the id as the number 5 and one with the id as
  the text \<open>5\<close>, the second with its price as text.
\<close>

definition product_id_number :: pydict where
  "product_id_number =
     [(''id'', JInt 5), (''url'', JStr ''https://www.example.com/product/5''),
      (''retailer'', JStr ''TestRetailer''), (''title'', JStr ''Rooibos Tea''),
      (''price'', JInt 60)]"

definition product_id_text :: pydict where
  "product_id_text =
     [(''id'', JStr ''5''), (''url'', JStr ''https://www.example.com/product/5''),
      (''retailer'', JStr ''TestRetailer''), (''title'', JStr ''Ceylon Tea''),
      (''price'', JDict [(''current'', JStr ''75'')])]"

text \<open>
  An engine for the examples. Its conversions are SQLite's on the values the examples
  store: a whole real below \<open>10^15\<close> has the text of its integer followed by \<open>.0\<close>, and a
  text made of decimal digits is that number. It rejects a query with a double quote in
  it and otherwise selects the entries whose title is the query text; it takes up to
  999 parameters; it orders rows by a stable sort on \<open>updated_at\<close>.
\<close>

fun digits_value :: "string \<Rightarrow> nat \<Rightarrow> nat option" where
  "digits_value [] acc = Some acc"
| "digits_value (c # cs) acc =
     (let n = (of_char c :: nat)
      in if 48 \<le> n \<and> n \<le> 57 then digits_value cs (10 * acc + (n - 48)) else None)"

definition title_is :: "string \<Rightarrow> search_row \<Rightarrow> bool" where
  "title_is q s \<longleftrightarrow> s_title s = SText q"

definition example_engine :: engine where
  "example_engine =
     \<lparr>real_text = (\<lambda>r. py_str_int (py_int r) @ ''.0''),
      text_number = (\<lambda>s. if s = [] then None else map_option of_nat (digits_value s 0)),
      fts_match = (\<lambda>q. if CHR 0x22 \<in> set q then None else Some (title_is q)),
      max_variables = 999,
      row_order = sort_key (\<lambda>r. - p_updated_at r)\<rparr>"




section \<open>The crawl attempt engine (base_crawler.py)\<close>

text \<open>
  The fetch engine (\<open>AsyncWebCrawler.arun_many\<close>) and the extractor (\<open>process_result\<close>,
  overridden per retailer) are collaborators. One result of \<open>arun_many\<close> carries what the
  loop reads from it: \<open>url\<close>, \<open>success\<close>, \<open>status_code\<close>, and what \<open>process_result\<close> gives
  on it (a dictionary, \<open>None\<close>, or an exception).
\<close>

record crawl_result =
  r_url :: string
  r_success :: bool
  r_status_code :: "int option"
  r_processed :: "py_error + pydict option"

text \<open>
  \<open>arun_many\<close> as the engine sees it: the number of calls made so far, the urls, whether
  the cache is enabled, and the delay window of the rate limiter. It returns the list of
  results or raises.
\<close>

type_synonym fetcher =
  "nat \<Rightarrow> string list \<Rightarrow> bool \<Rightarrow> rat \<times> rat \<Rightarrow> py_error + crawl_result list"

text \<open>
  The crawler object: the entries of \<open>self.stats\<close> that \<open>crawl_products\<close> updates,
  \<open>self.rate_limiter.base_delay\<close>, the cache mode of \<open>self.run_config\<close>, whether
  \<open>last_run.json\<close> exists, the product files written, the sleeps taken, and the number of
  calls of \<open>arun_many\<close>.
\<close>

record crawler =
  urls_processed :: nat
  successful :: nat
  failed :: nat
  products_found :: nat
  retry_count :: nat
  rate_limited :: nat
  base_delay :: "rat \<times> rat"
  cache_enabled :: bool
  last_run_written :: bool
  saved :: "pydict list"
  slept :: "nat list"
  fetch_calls :: nat

text \<open>\<open>rate_limit_codes\<close> of the rate limiter built in \<open>__init__\<close>.\<close>

definition rate_limit_codes :: "int list" where
  "rate_limit_codes = [429, 503, 403, 520, 521, 522]"

text \<open>
  Lines 289-322, the body of \<open>for result in crawl_results\<close>, on the accumulators
  \<open>results\<close>, \<open>retry_urls\<close> and the crawler.
\<close>

definition process_one ::
  "crawl_result \<Rightarrow> pydict list \<times> string list \<times> crawler \<Rightarrow> pydict list \<times> string list \<times> crawler" where
  "process_one result acc =
     (case acc of (results, retry_urls, c) \<Rightarrow>
        if r_success result
        then (case r_processed result of
                Inr (Some processed_data) \<Rightarrow>
                  if processed_data \<noteq> []
                  then (results @ [processed_data], retry_urls,
                        c\<lparr>successful := successful c + 1,
                          products_found := products_found c + 1,
                          saved := saved c @ [processed_data]\<rparr>)
                  else (results, retry_urls @ [r_url result], c\<lparr>failed := failed c + 1\<rparr>)
              | Inr None \<Rightarrow>
                  (results, retry_urls @ [r_url result], c\<lparr>failed := failed c + 1\<rparr>)
              | Inl e \<Rightarrow>
                  (results, retry_urls @ [r_url result], c\<lparr>failed := failed c + 1\<rparr>))
        else (let is_rate_limited =
                    (case r_status_code result of
                       None \<Rightarrow> False
                     | Some status_code \<Rightarrow> status_code \<in> set rate_limit_codes);
                  c1 = (if is_rate_limited then c\<lparr>rate_limited := rate_limited c + 1\<rparr> else c)
              in (results, retry_urls @ [r_url result], c1\<lparr>failed := failed c1 + 1\<rparr>)))"

fun process_results ::
  "crawl_result list \<Rightarrow> pydict list \<times> string list \<times> crawler \<Rightarrow> pydict list \<times> string list \<times> crawler" where
  "process_results [] acc = acc"
| "process_results (result # rest) acc = process_results rest (process_one result acc)"

text \<open>Lines 351-367: the log line and the write of \<open>last_run.json\<close>, then \<open>return results\<close>.\<close>

definition finish :: "pydict list \<Rightarrow> crawler \<Rightarrow> pydict list \<times> crawler" where
  "finish results c = (results, c\<lparr>last_run_written := True\<rparr>)"

lemma process_one_retry_count:
  "retry_count (snd (snd (process_one result acc))) = retry_count (snd (snd acc))"
  by (cases acc) (simp add: process_one_def Let_def split: sum.splits option.splits)

lemma process_results_retry_count:
  "retry_count (snd (snd (process_results crawl_results acc))) = retry_count (snd (snd acc))"
  by (induction crawl_results arbitrary: acc) (simp_all add: process_one_retry_count)

text \<open>
  \<open>crawl_products\<close>. An empty list returns at once. An exception of \<open>arun_many\<close> is
  caught by the outer \<open>except\<close>. The retry (lines 324-346) bumps \<open>retry_count\<close>, saves the
  delay window, widens it by \<open>retry_count + 1\<close>, sleeps \<open>5 * retry_count\<close> seconds, calls
  itself on \<open>retry_urls\<close>, extends \<open>results\<close>, and restores the saved window in \<open>finally\<close>.
  The recursion ends because \<open>retry_count\<close> only grows and a retry needs it below 3.
\<close>

function crawl_products :: "fetcher \<Rightarrow> crawler \<Rightarrow> string list \<Rightarrow> pydict list \<times> crawler" where
  "crawl_products arun_many c urls =
     (if urls = [] then ([], c)
      else (let use_cache = last_run_written c;
                c1 = c\<lparr>cache_enabled := use_cache, fetch_calls := fetch_calls c + 1\<rparr>
            in case arun_many (fetch_calls c) urls use_cache (base_delay c) of
                 Inl e \<Rightarrow> finish [] c1
               | Inr crawl_results \<Rightarrow>
                   (let c2 = c1\<lparr>urls_processed := length crawl_results\<rparr>;
                        processed = process_results crawl_results ([], [], c2);
                        results = fst processed;
                        retry_urls = fst (snd processed);
                        c3 = snd (snd processed)
                    in if retry_urls \<noteq> [] \<and> retry_count c3 < 3
                       then (let c4 = c3\<lparr>retry_count := retry_count c3 + 1\<rparr>;
                                 original_rate_limit = base_delay c4;
                                 backoff_factor = retry_count c4 + 1;
                                 new_min_delay = fst original_rate_limit * of_nat backoff_factor;
                                 new_max_delay = snd original_rate_limit * of_nat backoff_factor;
                                 c5 = c4\<lparr>base_delay := (new_min_delay, new_max_delay)\<rparr>;
                                 c6 = c5\<lparr>slept := slept c5 @ [5 * retry_count c5]\<rparr>;
                                 retried = crawl_products arun_many c6 retry_urls;
                                 retry_results = fst retried;
                                 c7 = snd retried;
                                 c8 = c7\<lparr>base_delay := original_rate_limit\<rparr>
                             in finish (results @ retry_results) c8)
                       else finish results c3)))"
  by pat_completeness auto
termination
  by (relation "measure (\<lambda>(arun_many, c, urls). 3 - retry_count c)")
     (auto simp: process_results_retry_count)

declare crawl_products.simps [simp del]

text \<open>
  The crawler as a retry round starts, after a round that left it as \<open>c\<close>: the counter
  bumped, the delay window widened, the sleep taken.
\<close>

definition retry_state :: "crawler \<Rightarrow> crawler" where
  "retry_state c =
     c\<lparr>retry_count := retry_count c + 1,
       base_delay := (fst (base_delay c) * of_nat (retry_count c + 2),
                      snd (base_delay c) * of_nat (retry_count c + 2)),
       slept := slept c @ [5 * (retry_count c + 1)]\<rparr>"

text \<open>The crawler as \<open>process_results\<close> receives it in a round that starts from \<open>c\<close>.\<close>

definition round_state :: "crawler \<Rightarrow> nat \<Rightarrow> crawler" where
  "round_state c n =
     c\<lparr>cache_enabled := last_run_written c, fetch_calls := fetch_calls c + 1,
       urls_processed := n\<rparr>"

text \<open>
  A fetcher whose every outcome, on every call, is a failure with a rate-limit status,
  one result per url; the fetcher that answers 429 to everything; a new crawler with
  the default delay window.
\<close>

definition rate_limited_result :: "crawl_result \<Rightarrow> bool" where
  "rate_limited_result r \<longleftrightarrow>
     \<not> r_success r \<and> (case r_status_code r of None \<Rightarrow> False | Some s \<Rightarrow> s \<in> set rate_limit_codes)"

definition always_rate_limited :: "fetcher \<Rightarrow> bool" where
  "always_rate_limited arun_many \<longleftrightarrow>
     (\<forall>k urls cache delay. \<exists>rs. arun_many k urls cache delay = Inr rs \<and>
        map r_url rs = urls \<and> list_all rate_limited_result rs)"

definition answer_429 :: fetcher where
  "answer_429 k urls cache delay =
     Inr (map (\<lambda>u. \<lparr>r_url = u, r_success = False, r_status_code = Some 429,
                     r_processed = Inr None\<rparr>) urls)"

definition new_crawler :: crawler where
  "new_crawler =
     \<lparr>urls_processed = 0, successful = 0, failed = 0, products_found = 0, retry_count = 0,
      rate_limited = 0, base_delay = (1, 3), cache_enabled = False, last_run_written = False,
      saved = [], slept = [], fetch_calls = 0\<rparr>"

text \<open>
  A fetcher that answers 429 to everything on its first call and fetches every page on
  the later ones, the extractor giving a small record for each page.
\<close>

definition fetched_page :: "string \<Rightarrow> crawl_result" where
  "fetched_page u =
     \<lparr>r_url = u, r_success = True, r_status_code = Some 200,
      r_processed = Inr (Some [(''url'', JStr u), (''title'', JStr ''Test Product'')])\<rparr>"

definition first_call_429 :: fetcher where
  "first_call_429 k urls cache delay =
     (if k = 0 then answer_429 k urls cache delay else Inr (map fetched_page urls))"

section \<open>The job scheduler (scheduler.py)\<close>

text \<open>
  A \<open>datetime\<close> is the number of microseconds it stands from 1970-01-01 00:00 on the
  naive local time line; \<open>datetime.min\<close> and \<open>datetime.max\<close> bound it, and
  \<open>timedelta\<close> holds at most 999999999 days.
\<close>

definition datetime_min :: int where
  "datetime_min = - 62135596800000000"

definition datetime_max :: int where
  "datetime_max = 253402300799999999"

text \<open>\<open>t + timedelta(hours=h)\<close>: both the \<open>timedelta\<close> and the sum raise \<open>OverflowError\<close>.\<close>

definition add_hours :: "int \<Rightarrow> int \<Rightarrow> py_error + int" where
  "add_hours t h =
     (if h div 24 < - 999999999 \<or> 999999999 < h div 24 then Inl OverflowError
      else (let t' = t + h * 3600000000
            in if t' < datetime_min \<or> datetime_max < t' then Inl OverflowError else Inr t'))"

text \<open>
  \<open>CrawlJob\<close>: the fields the scheduling reads and writes (\<open>max_urls\<close>, \<open>concurrency\<close>
  and the retailer configuration are handed to the crawler only).
\<close>

record crawl_job =
  retailer_name :: string
  interval_hours :: int
  enabled :: bool
  last_run :: "int option"
  next_run :: int
  running :: bool
  status :: string
  stats :: pydict

text \<open>\<open>CrawlJob.__init__\<close> at time \<open>now\<close>.\<close>

definition new_job :: "int \<Rightarrow> string \<Rightarrow> int \<Rightarrow> bool \<Rightarrow> crawl_job" where
  "new_job now name hours en =
     \<lparr>retailer_name = name, interval_hours = hours, enabled = en, last_run = None,
      next_run = now, running = False, status = ''idle'', stats = []\<rparr>"

text \<open>\<open>CrawlJob.is_due\<close>, with the reading of \<open>datetime.now()\<close>.\<close>

definition is_due :: "int \<Rightarrow> crawl_job \<Rightarrow> bool" where
  "is_due now job \<longleftrightarrow> enabled job \<and> \<not> running job \<and> next_run job \<le> now"

text \<open>
  What the body of the \<open>try\<close> in \<open>CrawlJob.run\<close> meets: the import of the crawler, its
  construction and its run are collaborators. Either an exception is raised (its text
  and the traceback), or the crawler returns its summary, with the product files of its
  run directory when that exists, each with the clock readings of its upsert.
\<close>

datatype work_outcome =
    WorkRaises string string
  | Crawled pydict "((rat \<times> rat) \<times> pydict) list option"

text \<open>\<open>d[k] = v\<close>: an existing key keeps its place.\<close>

fun dict_set :: "('k \<times> 'v) list \<Rightarrow> 'k \<Rightarrow> 'v \<Rightarrow> ('k \<times> 'v) list" where
  "dict_set [] k v = [(k, v)]"
| "dict_set ((k', v') # d) k v = (if k' = k then (k, v) # d else (k', v') # dict_set d k v)"

text \<open>\<open>_load_crawled_products\<close>: a product without \<open>retailer\<close> gets the job's.\<close>

definition load_crawled_products ::
  "string \<Rightarrow> ((rat \<times> rat) \<times> pydict) list \<Rightarrow> ((rat \<times> rat) \<times> pydict) list" where
  "load_crawled_products name files =
     map (\<lambda>(tm, product_data).
            (tm, if map_of product_data ''retailer'' = None
                 then dict_set product_data ''retailer'' (JStr name) else product_data))
       files"

text \<open>
  \<open>CrawlJob.run\<close> at time \<open>now\<close>, in two parts. The four assignments before the \<open>try\<close>
  (lines 107-110): an \<open>OverflowError\<close> of the date arithmetic leaves \<open>run\<close> with \<open>running\<close>
  set.
\<close>

definition start_job :: "int \<Rightarrow> crawl_job \<Rightarrow> py_error option \<times> crawl_job" where
  "start_job now job =
     (let j1 = job\<lparr>running := True, status := ''running'', last_run := Some now\<rparr>
      in case add_hours now (interval_hours j1) of
           Inl e \<Rightarrow> (Some e, j1)
         | Inr t \<Rightarrow> (None, j1\<lparr>next_run := t\<rparr>))"

text \<open>
  The \<open>try\<close> (lines 114-162): every exception is caught and recorded in \<open>stats\<close> with
  status \<open>failed\<close>, and \<open>finally\<close> clears \<open>running\<close>. The result is what \<open>run\<close> returns, the
  job and the database afterwards.
\<close>

definition finish_job ::
  "engine \<Rightarrow> work_outcome \<Rightarrow> database \<Rightarrow> crawl_job \<Rightarrow> pydict \<times> crawl_job \<times> database" where
  "finish_job eng outcome db0 job =
     (case outcome of
        Crawled summary files \<Rightarrow>
          (case files of
             Some fs \<Rightarrow>
               (let crawled_products = load_crawled_products (retailer_name job) fs;
                    stored = bulk_upsert_products eng db0 crawled_products;
                    success_count = fst (fst stored);
                    failure_count = snd (fst stored);
                    summary1 = dict_set summary ''database_success'' (JInt (int success_count));
                    summary2 = dict_set summary1 ''database_failure'' (JInt (int failure_count))
                in (summary2,
                    job\<lparr>stats := summary2, status := ''completed'', running := False\<rparr>,
                    snd stored))
           | None \<Rightarrow>
               (summary, job\<lparr>stats := summary, status := ''completed'', running := False\<rparr>, db0))
      | WorkRaises msg traceback \<Rightarrow>
          (let error_msg = ''Error running crawl job for '' @ retailer_name job @ '': '' @ msg;
               payload = [(''error'', JStr error_msg), (''traceback'', JStr traceback)]
           in (payload, job\<lparr>stats := payload, status := ''failed'', running := False\<rparr>, db0)))"

definition run_job ::
  "engine \<Rightarrow> int \<Rightarrow> work_outcome \<Rightarrow> database \<Rightarrow> crawl_job
     \<Rightarrow> (py_error + pydict) \<times> crawl_job \<times> database" where
  "run_job eng now outcome db0 job =
     (case start_job now job of
        (Some e, j1) \<Rightarrow> (Inl e, j1, db0)
      | (None, j2) \<Rightarrow>
          (case finish_job eng outcome db0 j2 of (result, j3, db1) \<Rightarrow> (Inr result, j3, db1)))"

text \<open>
  \<open>CrawlScheduler\<close>. The jobs are objects shared by the \<open>jobs\<close> dictionary and the
  queue: \<open>job_heap\<close> holds the objects by address, \<open>jobs\<close> maps a retailer name to an
  address, and the queue holds addresses, \<open>None\<close> being the sentinel of \<open>stop\<close>.
\<close>

record scheduler =
  sched_running :: bool
  jobs :: "(string \<times> nat) list"
  job_heap :: "crawl_job list"
  job_queue :: "nat option list"
  sched_db :: database

text \<open>\<open>add_job\<close> at time \<open>now\<close> (for a retailer of the configuration).\<close>

definition add_job :: "int \<Rightarrow> string \<Rightarrow> int \<Rightarrow> bool \<Rightarrow> scheduler \<Rightarrow> scheduler" where
  "add_job now name hours en s =
     s\<lparr>job_heap := job_heap s @ [new_job now name hours en],
       jobs := dict_set (jobs s) name (length (job_heap s))\<rparr>"

text \<open>\<open>run_job_now\<close>: the result and the scheduler afterwards.\<close>

definition run_job_now :: "string \<Rightarrow> scheduler \<Rightarrow> bool \<times> scheduler" where
  "run_job_now name s =
     (case map_of (jobs s) name of
        None \<Rightarrow> (False, s)
      | Some a \<Rightarrow>
          if running (job_heap s ! a) then (False, s)
          else (True, s\<lparr>job_queue := job_queue s @ [Some a]\<rparr>))"

text \<open>
  One pass of \<open>_checker_loop\<close> (lines 412-417): every job of \<open>self.jobs.values()\<close> that is
  due is put on the queue. \<open>now_for name\<close> is the reading of \<open>datetime.now()\<close> taken when the
  job of that name is looked at. Nothing else is written: the pass sets no status and
  does not touch \<open>next_run\<close>.
\<close>

definition due_jobs :: "(string \<Rightarrow> int) \<Rightarrow> scheduler \<Rightarrow> nat list" where
  "due_jobs now_for s =
     map snd (filter (\<lambda>(name, a). is_due (now_for name) (job_heap s ! a)) (jobs s))"

definition checker_pass :: "(string \<Rightarrow> int) \<Rightarrow> scheduler \<Rightarrow> scheduler" where
  "checker_pass now_for s =
     (if sched_running s then s\<lparr>job_queue := job_queue s @ map Some (due_jobs now_for s)\<rparr>
      else s)"

text \<open>
  One turn of \<open>_worker_loop\<close>: the loop ends when the scheduler is stopped, waits on an
  empty queue, leaves on the sentinel, and otherwise runs the job it took. Whatever
  \<open>job.run\<close> returns or raises is logged (\<open>except Exception\<close> around the body), and the
  loop goes on.
\<close>

datatype worker_step = Stopped | Waiting | Left scheduler | Continues scheduler

definition worker_iteration :: "engine \<Rightarrow> int \<Rightarrow> work_outcome \<Rightarrow> scheduler \<Rightarrow> worker_step" where
  "worker_iteration eng now outcome s =
     (if \<not> sched_running s then Stopped
      else (case job_queue s of
              [] \<Rightarrow> Waiting
            | None # rest \<Rightarrow> Left (s\<lparr>job_queue := rest\<rparr>)
            | Some a # rest \<Rightarrow>
                (case run_job eng now outcome (sched_db s) (job_heap s ! a) of
                   (Inl e, job', db') \<Rightarrow>
                     Continues (s\<lparr>job_queue := rest, job_heap := (job_heap s)[a := job'],
                                  sched_db := db'\<rparr>)
                 | (Inr result, job', db') \<Rightarrow>
                     Continues (s\<lparr>job_queue := rest, job_heap := (job_heap s)[a := job'],
                                  sched_db := db'\<rparr>))))"

text \<open>
  The scheduler as the checker sees it while the worker is inside \<open>job.run\<close>: the job
  taken from the queue and started, its crawl not yet finished.
\<close>

definition worker_begin :: "int \<Rightarrow> scheduler \<Rightarrow> scheduler" where
  "worker_begin now s =
     (if \<not> sched_running s then s
      else (case job_queue s of
              Some a # rest \<Rightarrow>
                s\<lparr>job_queue := rest,
                  job_heap := (job_heap s)[a := snd (start_job now (job_heap s ! a))]\<rparr>
            | _ \<Rightarrow> s))"

text \<open>
  A running scheduler with daily jobs for \<open>PriceCheck\<close> and \<open>Checkers\<close>, both created at
  time 0; and a clock that reads \<open>t\<close> for every job of a pass.
\<close>

definition two_job_scheduler :: scheduler where
  "two_job_scheduler =
     add_job 0 ''Checkers'' 24 True
       (add_job 0 ''PriceCheck'' 24 True
          \<lparr>sched_running = True, jobs = [], job_heap = [], job_queue = [], sched_db = empty_db\<rparr>)"

definition clock_at :: "int \<Rightarrow> string \<Rightarrow> int" where
  "clock_at t name = t"

section \<open>Properties of the product store\<close>

subsection \<open>Splitting a url\<close>

lemma split_on_ne: "split_on c s \<noteq> []"
  by (induction s) (auto split: list.splits)

lemma split_on_no_sep: "c \<notin> set s \<Longrightarrow> split_on c s = [s]"
  by (induction s) auto

lemma split_on_sep: "c \<in> set s \<Longrightarrow> \<exists>p q qs. split_on c s = p # q # qs"
proof (induction s)
  case Nil
  then show ?case by simp
next
  case (Cons a s)
  show ?case
  proof (cases "a = c")
    case True
    then show ?thesis using split_on_ne[of c s] by (cases "split_on c s") auto
  next
    case False
    with Cons.prems have "c \<in> set s" by simp
    from Cons.IH[OF this] obtain p q qs where "split_on c s = p # q # qs" by blast
    with False show ?thesis by simp
  qed
qed

lemma last_split_on: "last (split_on c s) = rev (takeWhile (\<lambda>x. x \<noteq> c) (rev s))"
proof (induction s)
  case Nil
  then show ?case by simp
next
  case (Cons a s)
  show ?case
  proof (cases "a = c")
    case True
    then show ?thesis using Cons split_on_ne[of c s]
      by (simp add: takeWhile_append)
  next
    case False
    show ?thesis
    proof (cases "c \<in> set s")
      case True
      from split_on_sep[OF True] obtain p q qs where e: "split_on c s = p # q # qs" by blast
      with False Cons True show ?thesis by (auto simp add: takeWhile_append)
    next
      case nin: False
      with False show ?thesis by (simp add: split_on_no_sep takeWhile_append)
    qed
  qed
qed

subsection \<open>Binding\<close>

lemma bindable_bind: "bindable v \<longleftrightarrow> bind v = Inr (bound v)"
  by (auto simp: bindable_def bound_def split: sum.splits)

lemma bind_Inr_bound: "bind v = Inr b \<Longrightarrow> bindable v \<and> bound v = b"
  by (simp add: bindable_def bound_def)

lemma bind_all_Nil_Inr: "bind_all [] = Inr bs \<longleftrightarrow> bs = []"
  by auto

lemma bind_all_Cons_Inr:
  "bind_all (v # vs) = Inr bs \<longleftrightarrow> (\<exists>b bs'. bind v = Inr b \<and> bind_all vs = Inr bs' \<and> bs = b # bs')"
  by (auto split: sum.splits)

lemma sql_int_Inr: "sql_int i = Inr j \<Longrightarrow> j = i \<and> - (2 ^ 63) \<le> i \<and> i < 2 ^ 63"
  by (auto simp: sql_int_def split: if_splits)

subsection \<open>Comparison and affinity\<close>

lemma sql_eq_text [simp]: "sql_eq x (SText k) \<longleftrightarrow> x = SText k"
  by (cases x) auto

lemma sql_eq_text_left [simp]: "sql_eq (SText k) x \<longleftrightarrow> x = SText k"
  by (cases x) auto

lemma sql_eq_null [simp]: "sql_eq x SNull = False"
  by (cases x) auto


lemma text_affinity_null [simp]: "text_affinity eng b = SNull \<longleftrightarrow> b = SNull"
  by (cases b) auto

lemma text_affinity_text: "b \<noteq> SNull \<Longrightarrow> \<exists>k. text_affinity eng b = SText k"
  by (cases b) auto

lemma sql_eq_text_affinity:
  "sql_eq x (text_affinity eng b) \<longleftrightarrow> x = text_affinity eng b \<and> b \<noteq> SNull"
  by (cases b) auto

lemma key_of_null: "key_of eng pid = SNull \<longleftrightarrow> bound pid = SNull"
  by (simp add: key_of_def)

lemma key_of_text: "bound pid \<noteq> SNull \<Longrightarrow> \<exists>k. key_of eng pid = SText k"
  unfolding key_of_def by (rule text_affinity_text)

lemma sql_eq_key: "sql_eq x (key_of eng pid) \<longleftrightarrow> x = key_of eng pid \<and> bound pid \<noteq> SNull"
proof (cases "bound pid = SNull")
  case True
  then show ?thesis by (simp add: key_of_def)
next
  case False
  from key_of_text[OF False, of eng] obtain k where "key_of eng pid = SText k" by blast
  with False show ?thesis by simp
qed

lemma sql_eq_key_left: "sql_eq (key_of eng pid) b \<longleftrightarrow> b = key_of eng pid \<and> bound pid \<noteq> SNull"
proof (cases "bound pid = SNull")
  case True
  then have "key_of eng pid = SNull" by (simp add: key_of_def)
  then show ?thesis using True by simp
next
  case False
  from key_of_text[OF False, of eng] obtain k where "key_of eng pid = SText k" by blast
  with False show ?thesis by simp
qed

lemma key_present:
  "(\<exists>r \<in> set rows. sql_eq (p_id r) (key_of eng pid)) \<longleftrightarrow>
     bound pid \<noteq> SNull \<and> key_of eng pid \<in> set (map p_id rows)"
  by (force simp: sql_eq_key)

subsection \<open>The statements of one upsert run together or not at all\<close>

lemma exec_insert_Inr:
  assumes "exec_insert eng db product_id retailer title description price brand category url data_json now = Inr db'"
  shows "bindable product_id \<and> bindable retailer \<and> bindable title \<and> bindable description \<and>
     bindable price \<and> bindable brand \<and> bindable category \<and> bindable url \<and>
     bound retailer \<noteq> SNull \<and> bound title \<noteq> SNull \<and> bound url \<noteq> SNull \<and>
     - (2 ^ 63) \<le> now \<and> now < 2 ^ 63"
proof -
  from assms obtain bs b_now where
    bs: "bind_all [product_id, retailer, title, description, price, brand, category, url] = Inr bs"
    and n: "sql_int now = Inr b_now" and s: "sql_insert eng db bs data_json b_now = Inr db'"
    by (auto simp: exec_insert_def split: sum.splits)
  from bs obtain b_id b_retailer b_title b_description b_price b_brand b_category b_url where
    bs_eq: "bs = [b_id, b_retailer, b_title, b_description, b_price, b_brand, b_category, b_url]"
    and b: "bind product_id = Inr b_id" "bind retailer = Inr b_retailer" "bind title = Inr b_title"
    "bind description = Inr b_description" "bind price = Inr b_price" "bind brand = Inr b_brand"
    "bind category = Inr b_category" "bind url = Inr b_url"
    unfolding bind_all_Cons_Inr bind_all_Nil_Inr by blast
  from s have "b_retailer \<noteq> SNull \<and> b_title \<noteq> SNull \<and> b_url \<noteq> SNull"
    unfolding bs_eq by (auto split: if_splits)
  with b[THEN bind_Inr_bound] sql_int_Inr[OF n] show ?thesis by simp
qed

lemma exec_update_Inr:
  assumes "exec_update eng db retailer title description price brand category url data_json now product_id = Inr db'"
    and ex: "\<exists>r \<in> set (products db). sql_eq (p_id r) (key_of eng product_id)"
  shows "bindable product_id \<and> bindable retailer \<and> bindable title \<and> bindable description \<and>
     bindable price \<and> bindable brand \<and> bindable category \<and> bindable url \<and>
     bound retailer \<noteq> SNull \<and> bound title \<noteq> SNull \<and> bound url \<noteq> SNull \<and>
     - (2 ^ 63) \<le> now \<and> now < 2 ^ 63"
proof -
  from assms obtain bs b_now where
    bs: "bind_all [retailer, title, description, price, brand, category, url, product_id] = Inr bs"
    and n: "sql_int now = Inr b_now" and s: "sql_update eng db bs data_json b_now = Inr db'"
    by (auto simp: exec_update_def split: sum.splits)
  from bs obtain b_id b_retailer b_title b_description b_price b_brand b_category b_url where
    bs_eq: "bs = [b_retailer, b_title, b_description, b_price, b_brand, b_category, b_url, b_id]"
    and b: "bind product_id = Inr b_id" "bind retailer = Inr b_retailer" "bind title = Inr b_title"
    "bind description = Inr b_description" "bind price = Inr b_price" "bind brand = Inr b_brand"
    "bind category = Inr b_category" "bind url = Inr b_url"
    unfolding bind_all_Cons_Inr bind_all_Nil_Inr by blast
  from b(1) ex have "\<exists>r \<in> set (products db). sql_eq (p_id r) (text_affinity eng b_id)"
    by (simp add: bound_def key_of_def)
  with s have "b_retailer \<noteq> SNull \<and> b_title \<noteq> SNull \<and> b_url \<noteq> SNull"
    unfolding bs_eq by (auto split: if_splits)
  with b[THEN bind_Inr_bound] sql_int_Inr[OF n] show ?thesis by simp
qed

lemma select_existing_Inr:
  "select_existing eng db product_id = Inr existing \<Longrightarrow>
     bindable product_id \<and>
     existing = find (\<lambda>r. sql_eq (p_id r) (key_of eng product_id)) (products db)"
  by (auto simp: select_existing_def bindable_def bound_def key_of_def split: sum.splits)

lemma find_None_key:
  "find (\<lambda>r. sql_eq (p_id r) b) rows = None \<longleftrightarrow> \<not> (\<exists>r \<in> set rows. sql_eq (p_id r) b)"
  by (auto simp: find_None_iff)

lemma upsert_record_ok:
  assumes d: "derive_id (fst tm) product_data = Inr product_id"
    and s: "storable product_id product_data (py_int (snd tm))"
  shows "upsert_record eng db tm product_data =
           (None, written eng db product_id product_data (py_int (snd tm)))"
proof -
  note b = s[unfolded storable_def bindable_bind get_field_def]
  let ?k = "text_affinity eng (bound product_id)"
  show ?thesis
  proof (cases "\<exists>r \<in> set (products db). sql_eq (p_id r) ?k")
    case True
    then have f: "find (\<lambda>r. sql_eq (p_id r) ?k) (products db) \<noteq> None"
      using find_None_key[of ?k "products db"] by blast
    show ?thesis
      using b True f d
      apply (simp add: upsert_record_def select_existing_def exec_update_def sql_int_def
          search_delete_def search_insert_def written_def key_of_def Let_def)
      apply (simp add: stored_row_def index_row_def get_field_def key_of_def
          sql_eq_text_affinity)
      done
  next
    case False
    then have f: "find (\<lambda>r. sql_eq (p_id r) ?k) (products db) = None"
      using find_None_key[of ?k "products db"] by blast
    show ?thesis
      using b False f d
      apply (simp add: upsert_record_def select_existing_def exec_insert_def sql_int_def
          search_delete_def search_insert_def written_def key_of_def Let_def)
      apply (simp add: stored_row_def index_row_def get_field_def key_of_def)
      done
  qed
qed


lemma upsert_record_not_storable:
  assumes d: "derive_id (fst tm) product_data = Inr product_id"
    and ns: "\<not> storable product_id product_data (py_int (snd tm))"
  shows "\<exists>e. upsert_record eng db tm product_data = (Some e, db)"
proof (cases "select_existing eng db product_id")
  case (Inl e)
  with d show ?thesis by (simp add: upsert_record_def)
next
  case (Inr existing)
  note se = select_existing_Inr[OF Inr]
  show ?thesis
  proof (cases "existing = None")
    case True
    have "\<exists>e. exec_insert eng db product_id (get_field product_data ''retailer'') (get_field product_data ''title'')
         (get_field product_data ''description'') (extract_price product_data)
         (get_field product_data ''brand'') (get_field product_data ''category'')
         (get_field product_data ''url'') product_data (py_int (snd tm)) = Inl e"
      using exec_insert_Inr[of eng db product_id "get_field product_data ''retailer''"
          "get_field product_data ''title''" "get_field product_data ''description''"
          "extract_price product_data" "get_field product_data ''brand''"
          "get_field product_data ''category''" "get_field product_data ''url''" product_data
          "py_int (snd tm)"] ns
      by (cases "exec_insert eng db product_id (get_field product_data ''retailer'') (get_field product_data ''title'')
         (get_field product_data ''description'') (extract_price product_data)
         (get_field product_data ''brand'') (get_field product_data ''category'')
         (get_field product_data ''url'') product_data (py_int (snd tm))") (auto simp: storable_def)
    with d Inr True show ?thesis
      by (auto simp: upsert_record_def Let_def get_field_def)
  next
    case False
    with se have ex: "\<exists>r \<in> set (products db). sql_eq (p_id r) (key_of eng product_id)"
      using find_None_key[of "key_of eng product_id" "products db"] by auto
    have "\<exists>e. exec_update eng db (get_field product_data ''retailer'') (get_field product_data ''title'')
         (get_field product_data ''description'') (extract_price product_data)
         (get_field product_data ''brand'') (get_field product_data ''category'')
         (get_field product_data ''url'') product_data (py_int (snd tm)) product_id = Inl e"
      using exec_update_Inr[of eng db "get_field product_data ''retailer''"
          "get_field product_data ''title''" "get_field product_data ''description''"
          "extract_price product_data" "get_field product_data ''brand''"
          "get_field product_data ''category''" "get_field product_data ''url''" product_data
          "py_int (snd tm)" product_id, OF _ ex] ns
      by (cases "exec_update eng db (get_field product_data ''retailer'') (get_field product_data ''title'')
         (get_field product_data ''description'') (extract_price product_data)
         (get_field product_data ''brand'') (get_field product_data ''category'')
         (get_field product_data ''url'') product_data (py_int (snd tm)) product_id") (auto simp: storable_def)
    with d Inr False show ?thesis
      by (auto simp: upsert_record_def Let_def get_field_def)
  qed
qed

lemma upsert_record_derive_fails:
  "derive_id (fst tm) product_data = Inl e \<Longrightarrow> upsert_record eng db tm product_data = (Some e, db)"
  by (simp add: upsert_record_def)


lemma lacks_url_falsy: "lacks_url product_data \<Longrightarrow> \<not> truthy (get_field product_data ''url'')"
  by (auto simp: lacks_url_def get_field_def dict_get_def)

lemma derive_id_result:
  "derive_id t product_data = Inr product_id \<Longrightarrow> truthy product_id \<or> (\<exists>s. product_id = JStr s)"
  by (auto simp: derive_id_def Let_def split: if_splits json.splits)

lemma derived_id_not_null:
  assumes "derive_id t product_data = Inr product_id" "bindable product_id"
  shows "bound product_id \<noteq> SNull"
  using derive_id_result[OF assms(1)] assms(2)
  by (cases product_id) (auto simp: bound_def bindable_def split: if_splits)


subsection \<open>The tables after one upsert\<close>

lemma written_eq:
  "written eng db pid pd now =
     \<lparr>products =
        (if bound pid \<noteq> SNull \<and> key_of eng pid \<in> set (map p_id (products db))
         then map (\<lambda>r. if p_id r = key_of eng pid
                        then stored_row eng pid pd (p_created_at r) now else r)
                (products db)
         else products db @ [stored_row eng pid pd now now]),
      product_search =
        filter (\<lambda>s. \<not> sql_eq (s_id s) (bound pid)) (product_search db) @ [index_row pid pd]\<rparr>"
proof -
  have "map (\<lambda>r. if sql_eq (p_id r) (key_of eng pid)
                        then stored_row eng pid pd (p_created_at r) now else r) rows
        = map (\<lambda>r. if p_id r = key_of eng pid
                        then stored_row eng pid pd (p_created_at r) now else r) rows"
    if "bound pid \<noteq> SNull" for rows
    using that by (simp add: sql_eq_key)
  then show ?thesis
    unfolding written_def key_present by (simp del: set_map)
qed

lemma written_ids:
  "map p_id (products (written eng db pid pd now)) =
     (if bound pid \<noteq> SNull \<and> key_of eng pid \<in> set (map p_id (products db))
      then map p_id (products db)
      else map p_id (products db) @ [key_of eng pid])"
proof -
  have "map p_id (map (\<lambda>r. if p_id r = key_of eng pid
                        then stored_row eng pid pd (p_created_at r) now else r) rows)
        = map p_id rows" for rows
    by (induction rows) (auto simp: stored_row_def)
  then show ?thesis by (simp add: written_eq stored_row_def del: set_map)
qed


lemma rows_with_id_written_other:
  assumes ne: "b \<noteq> key_of eng pid"
  shows "rows_with_id (written eng db pid pd now) b = rows_with_id db b"
proof -
  have k: "\<not> sql_eq (key_of eng pid) b" using ne by (simp add: sql_eq_key_left)
  have "filter (\<lambda>r. sql_eq (p_id r) b)
          (map (\<lambda>r. if p_id r = key_of eng pid
                    then stored_row eng pid pd (p_created_at r) now else r) rows)
        = filter (\<lambda>r. sql_eq (p_id r) b) rows" for rows
    using k by (induction rows) (auto simp: stored_row_def)
  with k show ?thesis by (simp add: rows_with_id_def written_eq stored_row_def del: set_map)
qed

lemma rows_with_id_written_same:
  assumes nn: "bound pid \<noteq> SNull"
  shows "rows_with_id (written eng db pid pd now) (key_of eng pid) =
     (if key_of eng pid \<in> set (map p_id (products db))
      then map (\<lambda>r. stored_row eng pid pd (p_created_at r) now) (rows_with_id db (key_of eng pid))
      else [stored_row eng pid pd now now])"
proof -
  have a: "filter (\<lambda>r. p_id r = key_of eng pid)
          (map (\<lambda>r. if p_id r = key_of eng pid
                    then stored_row eng pid pd (p_created_at r) now else r) rows)
        = map (\<lambda>r. stored_row eng pid pd (p_created_at r) now)
            (filter (\<lambda>r. p_id r = key_of eng pid) rows)" for rows
    by (induction rows) (auto simp: stored_row_def)
  have b: "key_of eng pid \<notin> set (map p_id rows) \<Longrightarrow> filter (\<lambda>r. p_id r = key_of eng pid) rows = []"
    for rows :: "product_row list"
    by (induction rows) auto
  show ?thesis using a b[of "products db"] nn
    by (simp add: rows_with_id_def written_eq sql_eq_key del: set_map) (simp add: stored_row_def)
qed

lemma rows_with_id_distinct:
  assumes "distinct (map p_id (products db))"
  shows "length (rows_with_id db (key_of eng pid)) \<le> 1"
proof -
  have "distinct (map p_id rows) \<Longrightarrow> length (filter (\<lambda>r. p_id r = b) rows) \<le> 1"
    for rows :: "product_row list" and b
  proof (induction rows)
    case Nil
    then show ?case by simp
  next
    case (Cons r rows)
    have "filter (\<lambda>x. p_id x = b) rows = []" if "p_id r = b"
    proof -
      from Cons.prems that have "b \<notin> p_id ` set rows" by simp
      then have "\<forall>x \<in> set rows. p_id x \<noteq> b" by blast
      then show ?thesis by (simp add: filter_empty_conv)
    qed
    with Cons show ?case by auto
  qed
  from this[of "products db" "key_of eng pid"] assms show ?thesis
    by (cases "bound pid = SNull") (simp_all add: rows_with_id_def sql_eq_key)
qed

lemma rows_with_id_member:
  "bound pid \<noteq> SNull \<Longrightarrow>
     key_of eng pid \<in> set (map p_id (products db)) \<longleftrightarrow> rows_with_id db (key_of eng pid) \<noteq> []"
  by (force simp: rows_with_id_def filter_empty_conv sql_eq_key)


lemma find_filter: "find P xs = (case filter P xs of [] \<Rightarrow> None | x # _ \<Rightarrow> Some x)"
  by (induction xs) auto

lemma get_product_by_id_rows:
  "bindable pid \<Longrightarrow> get_product_by_id eng db pid =
     (case rows_with_id db (key_of eng pid) of [] \<Rightarrow> None | r # _ \<Rightarrow> Some (p_data r))"
  by (simp add: get_product_by_id_def bindable_bind find_filter rows_with_id_def key_of_def
      split: list.splits)

lemma get_product_by_id_written_same:
  assumes "bindable pid" "bound pid \<noteq> SNull"
  shows "get_product_by_id eng (written eng db pid pd now) pid = Some pd"
proof (cases "key_of eng pid \<in> set (map p_id (products db))")
  case True
  then obtain r rs where "rows_with_id db (key_of eng pid) = r # rs"
    using rows_with_id_member[OF assms(2), of eng db] by (cases "rows_with_id db (key_of eng pid)") auto
  with True assms show ?thesis
    by (simp add: get_product_by_id_rows rows_with_id_written_same stored_row_def del: set_map)
next
  case False
  with assms show ?thesis
    by (simp add: get_product_by_id_rows rows_with_id_written_same stored_row_def del: set_map)
qed

lemma get_product_by_id_written_other:
  assumes "bindable pid'" "key_of eng pid' \<noteq> key_of eng pid"
  shows "get_product_by_id eng (written eng db pid pd now) pid' = get_product_by_id eng db pid'"
  using assms by (simp add: get_product_by_id_rows rows_with_id_written_other)

subsection \<open>Valid records are stored, the others leave the store as it was\<close>

lemma valid_record_id:
  "valid_record tm pd \<Longrightarrow>
     derive_id (fst tm) pd = Inr (record_id tm pd) \<and> storable (record_id tm pd) pd (py_int (snd tm))
     \<and> truthy (get_field pd ''url'')"
  by (auto simp: valid_record_def record_id_def split: sum.splits)

lemma storable_bindable: "storable pid pd now \<Longrightarrow> bindable pid"
  by (simp add: storable_def)

lemma valid_record_bindable: "valid_record tm pd \<Longrightarrow> bindable (record_id tm pd)"
  using valid_record_id[of tm pd] storable_bindable by blast

lemma valid_record_not_null: "valid_record tm pd \<Longrightarrow> bound (record_id tm pd) \<noteq> SNull"
  using valid_record_id[of tm pd] valid_record_bindable[of tm pd]
    derived_id_not_null[of "fst tm" pd "record_id tm pd"] by blast

lemma upsert_record_valid:
  "valid_record tm pd \<Longrightarrow>
     upsert_record eng db tm pd = (None, written eng db (record_id tm pd) pd (py_int (snd tm)))"
  using upsert_record_ok[of tm pd "record_id tm pd" eng db] valid_record_id[of tm pd] by simp

lemma upsert_record_invalid:
  assumes "\<not> valid_record tm pd" "truthy (get_field pd ''url'')"
  shows "\<exists>e. upsert_record eng db tm pd = (Some e, db)"
proof (cases "derive_id (fst tm) pd")
  case (Inl e)
  then show ?thesis by (simp add: upsert_record_derive_fails)
next
  case (Inr pid)
  with assms have "\<not> storable pid pd (py_int (snd tm))" by (simp add: valid_record_def)
  from upsert_record_not_storable[OF Inr this] show ?thesis .
qed

lemma upsert_product_valid:
  "valid_record tm pd \<Longrightarrow>
     upsert_product eng db tm pd = (True, written eng db (record_id tm pd) pd (py_int (snd tm)))"
  using valid_record_id[of tm pd]
  by (simp add: upsert_product_def upsert_record_valid get_field_def)

lemma upsert_product_invalid:
  "\<not> valid_record tm pd \<Longrightarrow> upsert_product eng db tm pd = (False, db)"
proof (cases "truthy (get_field pd ''url'')")
  case True
  assume "\<not> valid_record tm pd"
  from upsert_record_invalid[OF this True, of eng db] True show ?thesis
    by (auto simp: upsert_product_def get_field_def)
next
  case False
  then show ?thesis by (simp add: upsert_product_def get_field_def)
qed

lemma upsert_product_True:
  assumes "upsert_product eng db tm pd = (True, db')"
  shows "valid_record tm pd \<and> db' = written eng db (record_id tm pd) pd (py_int (snd tm))"
proof (cases "valid_record tm pd")
  case True
  with assms upsert_product_valid[OF True, of eng db] show ?thesis by simp
next
  case False
  with assms upsert_product_invalid[OF False, of eng db] show ?thesis by simp
qed

lemma upsert_product_result:
  "upsert_product eng db tm pd =
     (if valid_record tm pd then (True, written eng db (record_id tm pd) pd (py_int (snd tm)))
      else (False, db))"
  by (simp add: upsert_product_valid upsert_product_invalid)

lemma bulk_loop_step:
  "bulk_loop eng db ((tm, pd) # rest) s f =
     (if valid_record tm pd
      then bulk_loop eng (written eng db (record_id tm pd) pd (py_int (snd tm))) rest (s + 1) f
      else bulk_loop eng db rest s (f + 1))"
proof (cases "valid_record tm pd")
  case True
  with valid_record_id[OF True] show ?thesis
    by (simp add: upsert_record_valid get_field_def)
next
  case False
  show ?thesis
  proof (cases "truthy (get_field pd ''url'')")
    case True
    from upsert_record_invalid[OF False True, of eng db] False True show ?thesis
      by (auto simp: get_field_def)
  next
    case nt: False
    with False show ?thesis by (simp add: get_field_def)
  qed
qed

lemma derive_id_spec:
  assumes "map_of pd ''url'' = Some (JStr u)"
  shows "derive_id t pd = Inr (spec_identity t pd u)"
  using assms split_on_ne[of "CHR ''/''" u]
  by (simp add: derive_id_def spec_identity_def dict_get_def get_field_def Let_def
      last_split_on after_final_slash_def)

subsection \<open>Reading back what was stored\<close>

lemma bulk_single:
  "bulk_upsert_products eng db [(tm, pd)] = ((1, 0), db') \<Longrightarrow> upsert_product eng db tm pd = (True, db')"
  by (auto simp: bulk_upsert_products_def bulk_loop_step upsert_product_valid
      simp del: bulk_loop.simps(2) split: if_splits)

lemma read_back_after_upsert:
  assumes ok: "upsert_product eng db tm pd = (True, db')"
  shows "get_product_by_id eng db' (record_id tm pd) = Some pd"
proof -
  from upsert_product_True[OF ok] have v: "valid_record tm pd"
    and d: "db' = written eng db (record_id tm pd) pd (py_int (snd tm))" by simp_all
  from valid_record_bindable[OF v] valid_record_not_null[OF v] show ?thesis
    unfolding d by (rule get_product_by_id_written_same)
qed

lemma stored_under_identity:
  assumes u: "map_of product_data ''url'' = Some (JStr u)"
    and ok: "upsert_product eng db tm product_data = (True, db')"
  shows "get_product_by_id eng db' (spec_identity (fst tm) product_data u) = Some product_data"
proof -
  from derive_id_spec[OF u] have r: "record_id tm product_data = spec_identity (fst tm) product_data u"
    by (simp add: record_id_def)
  from read_back_after_upsert[OF ok] show ?thesis unfolding r .
qed

lemma test_product_valid: "valid_record (t1, t2) test_product \<longleftrightarrow> - (2 ^ 63) \<le> py_int t2 \<and> py_int t2 < 2 ^ 63"
  by (simp add: valid_record_def test_product_def get_field_def dict_get_def derive_id_def
      storable_def bindable_def bound_def extract_price_def Let_def)

lemma test_product_v2_valid: "valid_record (t1, t2) test_product_v2 \<longleftrightarrow> - (2 ^ 63) \<le> py_int t2 \<and> py_int t2 < 2 ^ 63"
  by (simp add: valid_record_def test_product_v2_def get_field_def dict_get_def derive_id_def
      storable_def bindable_def bound_def extract_price_def Let_def)

lemma other_product_valid: "valid_record (t1, t2) other_product \<longleftrightarrow> - (2 ^ 63) \<le> py_int t2 \<and> py_int t2 < 2 ^ 63"
  by (simp add: valid_record_def other_product_def get_field_def dict_get_def derive_id_def
      storable_def bindable_def bound_def extract_price_def Let_def)

lemma test_product_id: "spec_identity t test_product ''https://www.example.com/product/123'' = JStr ''123''"
  by (simp add: spec_identity_def test_product_def get_field_def dict_get_def after_final_slash_def)

lemma test_product_derive: "derive_id t test_product = Inr (JStr ''123'')"
  by (simp add: derive_id_def test_product_def dict_get_def Let_def)

lemma test_product_v2_derive: "derive_id t test_product_v2 = Inr (JStr ''123'')"
  by (simp add: derive_id_def test_product_v2_def dict_get_def Let_def)

lemma other_product_derive: "derive_id t other_product = Inr (JStr ''456'')"
  by (simp add: derive_id_def other_product_def dict_get_def Let_def)

lemma product_without_url_lacks: "lacks_url product_without_url"
  by (simp add: lacks_url_def product_without_url_def)

lemma py_int_1000: "py_int 1000 = 1000"
  by (simp add: py_int_def)

lemma py_int_2000: "py_int 2000 = 2000"
  by (simp add: py_int_def)

lemma key_of_text_id: "key_of eng (JStr s) = SText s"
  by (simp add: key_of_def bound_def)

subsection \<open>One row and one index entry per identity\<close>

lemma rows_with_id_written_single:
  assumes pk: "distinct (map p_id (products db))" and nn: "bound pid \<noteq> SNull"
  shows "\<exists>c. rows_with_id (written eng db pid pd now) (key_of eng pid) = [stored_row eng pid pd c now]"
proof (cases "key_of eng pid \<in> set (map p_id (products db))")
  case True
  then have "rows_with_id db (key_of eng pid) \<noteq> []"
    using rows_with_id_member[OF nn, of eng db] by blast
  moreover from rows_with_id_distinct[OF pk, of eng pid]
  have "length (rows_with_id db (key_of eng pid)) \<le> 1" .
  ultimately obtain x where x: "rows_with_id db (key_of eng pid) = [x]"
    by (cases "rows_with_id db (key_of eng pid)") auto
  have "rows_with_id (written eng db pid pd now) (key_of eng pid)
          = [stored_row eng pid pd (p_created_at x) now]"
    using True x by (simp only: rows_with_id_written_same[OF nn] if_True list.map)
  then show ?thesis by blast
next
  case False
  then have "rows_with_id (written eng db pid pd now) (key_of eng pid) = [stored_row eng pid pd now now]"
    by (simp only: rows_with_id_written_same[OF nn] if_False)
  then show ?thesis by blast
qed




lemma price_column_after_upsert:
  assumes ok: "upsert_product eng db tm pd = (True, db')"
    and pk: "distinct (map p_id (products db))"
  shows "map p_price (rows_with_id db' (key_of eng (record_id tm pd)))
           = [real_affinity eng (bound (extract_price pd))]"
proof -
  from upsert_product_True[OF ok] have v: "valid_record tm pd"
    and d: "db' = written eng db (record_id tm pd) pd (py_int (snd tm))" by simp_all
  from rows_with_id_written_single[OF pk valid_record_not_null[OF v], of eng pd "py_int (snd tm)"]
  show ?thesis unfolding d by (auto simp: stored_row_def)
qed

lemma extract_price_nested:
  "map_of pd ''price'' = Some (JDict price) \<Longrightarrow> map_of price ''current'' = Some current
     \<Longrightarrow> extract_price pd = current"
  by (simp add: extract_price_def dict_get_def)

subsection \<open>The bulk loop\<close>

lemma bulk_loop_counters:
  "bulk_loop eng db batch s f =
     ((s + fst (fst (bulk_loop eng db batch 0 0)), f + snd (fst (bulk_loop eng db batch 0 0))),
      snd (bulk_loop eng db batch 0 0))"
proof (induction batch arbitrary: db s f)
  case Nil
  then show ?case by simp
next
  case (Cons x batch)
  obtain tm pd where x: "x = (tm, pd)" by (cases x)
  show ?case
  proof (cases "valid_record tm pd")
    case True
    show ?thesis unfolding x
      using Cons.IH[of "written eng db (record_id tm pd) pd (py_int (snd tm))" "s + 1" f]
        Cons.IH[of "written eng db (record_id tm pd) pd (py_int (snd tm))" 1 0] True
      by (simp add: bulk_loop_step del: bulk_loop.simps(2))
  next
    case False
    show ?thesis unfolding x
      using Cons.IH[of db s "f + 1"] Cons.IH[of db 0 1] False
      by (simp add: bulk_loop_step del: bulk_loop.simps(2))
  qed
qed

lemma bulk_upsert_Cons:
  "bulk_upsert_products eng db ((tm, pd) # rest) =
     (if valid_record tm pd
      then (let r = bulk_upsert_products eng (written eng db (record_id tm pd) pd (py_int (snd tm))) rest
            in ((fst (fst r) + 1, snd (fst r)), snd r))
      else (let r = bulk_upsert_products eng db rest in ((fst (fst r), snd (fst r) + 1), snd r)))"
  unfolding bulk_upsert_products_def
  using bulk_loop_counters[of eng "written eng db (record_id tm pd) pd (py_int (snd tm))" rest 1 0]
    bulk_loop_counters[of eng db rest 0 1]
  by (simp add: bulk_loop_step Let_def del: bulk_loop.simps(2))

lemma bulk_upsert_Nil: "bulk_upsert_products eng db [] = ((0, 0), db)"
  by (simp add: bulk_upsert_products_def)

lemma bulk_upsert_counts:
  "fst (bulk_upsert_products eng db batch) =
     (length (filter (\<lambda>(tm, pd). valid_record tm pd) batch),
      length (filter (\<lambda>(tm, pd). \<not> valid_record tm pd) batch))"
proof (induction batch arbitrary: db)
  case Nil
  then show ?case by (simp add: bulk_upsert_Nil)
next
  case (Cons x batch)
  obtain tm pd where x: "x = (tm, pd)" by (cases x)
  show ?case unfolding x using Cons.IH
    by (simp add: bulk_upsert_Cons Let_def)
qed

lemma lacks_url_invalid: "lacks_url pd \<Longrightarrow> \<not> valid_record tm pd"
  using lacks_url_falsy[of pd] by (simp add: valid_record_def)

text \<open>A failing record anywhere in the batch only adds one to the failure count.\<close>

lemma bulk_upsert_skip_failure:
  assumes "\<not> valid_record tm pd"
  shows "bulk_upsert_products eng db (pre @ (tm, pd) # post) =
     (let r = bulk_upsert_products eng db (pre @ post) in ((fst (fst r), snd (fst r) + 1), snd r))"
proof (induction pre arbitrary: db)
  case Nil
  with assms show ?case by (simp add: bulk_upsert_Cons)
next
  case (Cons x pre)
  obtain tm' pd' where x: "x = (tm', pd')" by (cases x)
  show ?case unfolding x using Cons.IH
    by (simp add: bulk_upsert_Cons Let_def)
qed

lemma written_ids_mono:
  "b \<in> set (map p_id (products db)) \<Longrightarrow> b \<in> set (map p_id (products (written eng db pid pd now)))"
  by (simp add: written_ids del: set_map)

lemma written_ids_own: "key_of eng pid \<in> set (map p_id (products (written eng db pid pd now)))"
  by (simp add: written_ids del: set_map)

lemma bulk_ids_mono:
  "b \<in> set (map p_id (products db)) \<Longrightarrow>
     b \<in> set (map p_id (products (snd (bulk_upsert_products eng db batch))))"
proof (induction batch arbitrary: db)
  case Nil
  then show ?case by (simp add: bulk_upsert_Nil)
next
  case (Cons x batch)
  obtain tm pd where x: "x = (tm, pd)" by (cases x)
  show ?case unfolding x using Cons.IH Cons.prems written_ids_mono
    by (simp add: bulk_upsert_Cons Let_def del: set_map)
qed

lemma bulk_valid_ids:
  "(tm, pd) \<in> set batch \<Longrightarrow> valid_record tm pd \<Longrightarrow>
     key_of eng (record_id tm pd) \<in> set (map p_id (products (snd (bulk_upsert_products eng db batch))))"
proof (induction batch arbitrary: db)
  case Nil
  then show ?case by simp
next
  case (Cons x batch)
  obtain tm' pd' where x: "x = (tm', pd')" by (cases x)
  show ?case
  proof (cases "(tm, pd) = x")
    case True
    with Cons.prems x show ?thesis
      using bulk_ids_mono[OF written_ids_own[of eng "record_id tm pd" db pd "py_int (snd tm)"],
          where batch=batch]
      by (simp add: bulk_upsert_Cons Let_def del: set_map)
  next
    case False
    with Cons.prems have "(tm, pd) \<in> set batch" by simp
    from Cons.IH[OF this Cons.prems(2)] show ?thesis unfolding x
      by (simp add: bulk_upsert_Cons Let_def del: set_map)
  qed
qed

lemma get_product_by_id_member:
  assumes "bindable pid" "bound pid \<noteq> SNull" "key_of eng pid \<in> set (map p_id (products db))"
  shows "\<exists>stored. get_product_by_id eng db pid = Some stored"
proof -
  from assms(3) have "rows_with_id db (key_of eng pid) \<noteq> []"
    using rows_with_id_member[OF assms(2), of eng db] by blast
  with assms(1) show ?thesis
    by (cases "rows_with_id db (key_of eng pid)") (simp_all add: get_product_by_id_rows)
qed

lemma bulk_keeps_record:
  assumes "bindable pid"
    and "\<forall>(tm, pd) \<in> set post. \<not> valid_record tm pd \<or> key_of eng (record_id tm pd) \<noteq> key_of eng pid"
  shows "get_product_by_id eng (snd (bulk_upsert_products eng db post)) pid = get_product_by_id eng db pid"
  using assms(2)
proof (induction post arbitrary: db)
  case Nil
  then show ?case by (simp add: bulk_upsert_Nil)
next
  case (Cons x post)
  obtain tm pd where x: "x = (tm, pd)" by (cases x)
  from Cons.prems have rest: "\<forall>(tm, pd) \<in> set post. \<not> valid_record tm pd \<or> key_of eng (record_id tm pd) \<noteq> key_of eng pid"
    by simp
  show ?case
  proof (cases "valid_record tm pd")
    case True
    with Cons.prems x have ne: "key_of eng pid \<noteq> key_of eng (record_id tm pd)" by auto
    from Cons.IH[OF rest, of "written eng db (record_id tm pd) pd (py_int (snd tm))"] True
      get_product_by_id_written_other[OF assms(1) ne]
    show ?thesis unfolding x by (simp add: bulk_upsert_Cons Let_def)
  next
    case False
    with Cons.IH[OF rest, of db] show ?thesis unfolding x by (simp add: bulk_upsert_Cons Let_def)
  qed
qed

lemma bulk_upsert_append:
  "snd (bulk_upsert_products eng db (xs @ ys)) =
     snd (bulk_upsert_products eng (snd (bulk_upsert_products eng db xs)) ys)"
proof (induction xs arbitrary: db)
  case Nil
  then show ?case by (simp add: bulk_upsert_Nil)
next
  case (Cons x xs)
  obtain tm pd where x: "x = (tm, pd)" by (cases x)
  show ?case unfolding x using Cons.IH by (simp add: bulk_upsert_Cons Let_def)
qed

lemma bulk_last_write_wins:
  assumes v: "valid_record tm pd"
    and later: "\<forall>(tm', pd') \<in> set post.
        \<not> valid_record tm' pd' \<or> key_of eng (record_id tm' pd') \<noteq> key_of eng (record_id tm pd)"
  shows "get_product_by_id eng (snd (bulk_upsert_products eng db (pre @ (tm, pd) # post))) (record_id tm pd)
           = Some pd"
proof -
  let ?d = "snd (bulk_upsert_products eng db pre)"
  have b: "bindable (record_id tm pd)" by (rule valid_record_bindable[OF v])
  have "snd (bulk_upsert_products eng db (pre @ (tm, pd) # post))
          = snd (bulk_upsert_products eng (written eng ?d (record_id tm pd) pd (py_int (snd tm))) post)"
    using v by (simp add: bulk_upsert_append bulk_upsert_Cons Let_def)
  then show ?thesis
    using bulk_keeps_record[OF b later] get_product_by_id_written_same[OF b valid_record_not_null[OF v]]
    by simp
qed

subsection \<open>Refusal of a record without url\<close>

text \<open>
  C10. A record whose \<open>url\<close> is missing or empty makes \<open>upsert_product\<close> return \<open>False\<close>
  and leaves both tables, the products and the search index, exactly as they were.
\<close>

theorem upsert_product_refuses_missing_url:
  assumes "lacks_url product_data"
  shows "upsert_product eng db tm product_data = (False, db)"
  using lacks_url_falsy[OF assms] by (simp add: upsert_product_def get_field_def)

theorem upsert_product_refuses_missing_url_witness:
  "lacks_url [(''title'', JStr ''Tea''), (''url'', JStr '''')] \<and>
   upsert_product example_engine
     \<lparr>products = [stored_row example_engine (JStr ''7'') [(''url'', JStr ''https://shop/p/7'')] 5 5],
      product_search = [index_row (JStr ''7'') [(''url'', JStr ''https://shop/p/7'')]]\<rparr>
     (1000, 1000) [(''title'', JStr ''Tea''), (''url'', JStr '''')]
   = (False,
      \<lparr>products = [stored_row example_engine (JStr ''7'') [(''url'', JStr ''https://shop/p/7'')] 5 5],
       product_search = [index_row (JStr ''7'') [(''url'', JStr ''https://shop/p/7'')]]\<rparr>)"
proof -
  have h: "lacks_url [(''title'', JStr ''Tea''), (''url'', JStr '''')]"
    by (simp add: lacks_url_def)
  from upsert_product_refuses_missing_url[OF h] h show ?thesis by blast
qed

subsection \<open>The identity of a stored record\<close>

text \<open>
  C3. For a record whose \<open>url\<close> is a non-empty string, the identity that both
  \<open>upsert_product\<close> and \<open>bulk_upsert_products\<close> compute is the explicit \<open>id\<close> field if
  it is non-empty, else the substring of the url after its final \<open>/\<close>, else (when that
  substring is empty) a synthetic id, the decimal text of the clock in milliseconds; and
  a record that is stored is read back under that identity.
\<close>

theorem stored_identity_rule:
  assumes "map_of product_data ''url'' = Some (JStr u)" and "u \<noteq> []"
  shows "derive_id (fst tm) product_data = Inr (spec_identity (fst tm) product_data u) \<and>
     (upsert_product eng db tm product_data = (True, db') \<longrightarrow>
        get_product_by_id eng db' (spec_identity (fst tm) product_data u) = Some product_data) \<and>
     (bulk_upsert_products eng db [(tm, product_data)] = ((1, 0), db') \<longrightarrow>
        get_product_by_id eng db' (spec_identity (fst tm) product_data u) = Some product_data)"
  using derive_id_spec[OF assms(1)] stored_under_identity[OF assms(1)] bulk_single
  by blast

theorem stored_identity_rule_witness:
  "map_of test_product ''url'' = Some (JStr ''https://www.example.com/product/123'') \<and>
   ''https://www.example.com/product/123'' \<noteq> [] \<and>
   derive_id 1000 test_product = Inr (JStr ''123'') \<and>
   upsert_product example_engine empty_db (1000, 1000) test_product
     = (True, written example_engine empty_db (JStr ''123'') test_product 1000) \<and>
   get_product_by_id example_engine
       (written example_engine empty_db (JStr ''123'') test_product 1000) (JStr ''123'')
     = Some test_product \<and>
   bulk_upsert_products example_engine empty_db [((1000, 1000), test_product)]
     = ((1, 0), written example_engine empty_db (JStr ''123'') test_product 1000)"
proof -
  have u: "map_of test_product ''url'' = Some (JStr ''https://www.example.com/product/123'')"
    by (simp add: test_product_def)
  have n: "''https://www.example.com/product/123'' \<noteq> []" by simp
  have v: "valid_record (1000, 1000) test_product"
    by (simp add: test_product_valid py_int_1000)
  have r: "record_id (1000, 1000) test_product = JStr ''123''"
    using derive_id_spec[OF u, of 1000] by (simp add: record_id_def test_product_id)
  have a: "upsert_product example_engine empty_db (1000, 1000) test_product
     = (True, written example_engine empty_db (JStr ''123'') test_product 1000)"
    using upsert_product_valid[OF v, of example_engine empty_db] by (simp add: r py_int_1000)
  have b: "bulk_upsert_products example_engine empty_db [((1000, 1000), test_product)]
     = ((1, 0), written example_engine empty_db (JStr ''123'') test_product 1000)"
    using v by (simp add: bulk_upsert_products_def bulk_loop_step r py_int_1000 del: bulk_loop.simps(2))
  from stored_identity_rule[OF u n, of "(1000, 1000)" example_engine empty_db
      "written example_engine empty_db (JStr ''123'') test_product 1000"] a b u n
  show ?thesis by (simp add: test_product_id)
qed

subsection \<open>Upserting the same identity twice\<close>



text \<open>
  The key of \<open>products\<close> is the id as text, and the index compares its ids as they were
  bound. So the number 5 and the text \<open>5\<close> are two derived identities that name one row
  of \<open>products\<close> and two entries of the index: after a record with the id \<open>''5''\<close> and a
  record with the id 5, the table holds one row, which is read back under either id,
  and the index holds the entries of both records.
\<close>

lemma number_and_text_id_example:
  "bulk_upsert_products example_engine empty_db
       [((1000, 1000), product_id_text), ((2000, 2000), product_id_number)]
     = ((2, 0),
        \<lparr>products = [stored_row example_engine (JInt 5) product_id_number 1000 2000],
         product_search = [index_row (JStr ''5'') product_id_text,
                           index_row (JInt 5) product_id_number]\<rparr>) \<and>
   p_id (stored_row example_engine (JInt 5) product_id_number 1000 2000) = SText ''5'' \<and>
   get_product_by_id example_engine
       (snd (bulk_upsert_products example_engine empty_db
          [((1000, 1000), product_id_text), ((2000, 2000), product_id_number)])) (JStr ''5'')
     = Some product_id_number \<and>
   get_product_by_id example_engine
       (snd (bulk_upsert_products example_engine empty_db
          [((1000, 1000), product_id_text), ((2000, 2000), product_id_number)])) (JInt 5)
     = Some product_id_number"
proof -
  have v1: "valid_record (1000, 1000) product_id_text"
    by (simp add: valid_record_def product_id_text_def get_field_def dict_get_def derive_id_def
        storable_def bindable_def bound_def extract_price_def Let_def py_int_1000)
  have v2: "valid_record (2000, 2000) product_id_number"
    by (simp add: valid_record_def product_id_number_def get_field_def dict_get_def derive_id_def
        storable_def bindable_def bound_def extract_price_def Let_def py_int_2000)
  have r1: "record_id (1000, 1000) product_id_text = JStr ''5''"
    by (simp add: record_id_def derive_id_def product_id_text_def dict_get_def Let_def)
  have r2: "record_id (2000, 2000) product_id_number = JInt 5"
    by (simp add: record_id_def derive_id_def product_id_number_def dict_get_def Let_def)
  have five: "py_str_int 5 = ''5''"
    by code_simp
  have k1: "key_of example_engine (JStr ''5'') = SText ''5''" by (simp add: key_of_def bound_def)
  have k2: "key_of example_engine (JInt 5) = SText ''5''" by (simp add: key_of_def bound_def five)
  have b: "bulk_upsert_products example_engine empty_db
       [((1000, 1000), product_id_text), ((2000, 2000), product_id_number)]
     = ((2, 0),
        \<lparr>products = [stored_row example_engine (JInt 5) product_id_number 1000 2000],
         product_search = [index_row (JStr ''5'') product_id_text,
                           index_row (JInt 5) product_id_number]\<rparr>)"
    using v1 v2
    by (simp add: bulk_upsert_Cons bulk_upsert_Nil r1 r2 py_int_1000 py_int_2000 Let_def
        written_eq k1 k2 empty_db_def)
       (simp add: stored_row_def index_row_def bound_def k1 k2)
  have g: "get_product_by_id example_engine
       \<lparr>products = [stored_row example_engine (JInt 5) product_id_number 1000 2000],
         product_search = [index_row (JStr ''5'') product_id_text,
                           index_row (JInt 5) product_id_number]\<rparr> pid = Some product_id_number"
    if "pid = JStr ''5'' \<or> pid = JInt 5" for pid
    using that by (auto simp: get_product_by_id_def stored_row_def k2 five)
  show ?thesis unfolding b using g by (simp add: stored_row_def k2)
qed

subsection \<open>Round trip of the nested price\<close>

text \<open>
  C9. A record with a nested price \<open>{current, currency}\<close> that \<open>upsert_product\<close> has
  stored is read back by \<open>get_product_by_id\<close> under its identity with the same
  \<open>current\<close> and the same \<open>currency\<close>. (The text of the \<open>data\<close> column is represented by
  the JSON value it encodes.)
\<close>

theorem price_round_trip:
  assumes "map_of product_data ''price'' = Some (JDict price)"
    and "map_of price ''current'' = Some current"
    and "map_of price ''currency'' = Some currency"
    and "upsert_product eng db tm product_data = (True, db')"
  shows "\<exists>stored price'.
           get_product_by_id eng db' (record_id tm product_data) = Some stored \<and>
           map_of stored ''price'' = Some (JDict price') \<and>
           map_of price' ''current'' = Some current \<and>
           map_of price' ''currency'' = Some currency"
  using read_back_after_upsert[OF assms(4)] assms(1-3) by blast

theorem price_round_trip_witness:
  "map_of test_product ''price''
      = Some (JDict [(''current'', JFloat (9999 / 100)), (''currency'', JStr ''ZAR'')]) \<and>
   map_of [(''current'', JFloat (9999 / 100)), (''currency'', JStr ''ZAR'')] ''current''
      = Some (JFloat (9999 / 100)) \<and>
   map_of [(''current'', JFloat (9999 / 100)), (''currency'', JStr ''ZAR'')] ''currency''
      = Some (JStr ''ZAR'') \<and>
   upsert_product example_engine empty_db (1000, 1000) test_product
      = (True, written example_engine empty_db (JStr ''123'') test_product 1000) \<and>
   (\<exists>stored price'.
      get_product_by_id example_engine
          (written example_engine empty_db (JStr ''123'') test_product 1000) (JStr ''123'')
        = Some stored \<and>
      map_of stored ''price'' = Some (JDict price') \<and>
      map_of price' ''current'' = Some (JFloat (9999 / 100)) \<and>
      map_of price' ''currency'' = Some (JStr ''ZAR''))"
proof -
  have p: "map_of test_product ''price''
      = Some (JDict [(''current'', JFloat (9999 / 100)), (''currency'', JStr ''ZAR'')])"
    by (simp add: test_product_def)
  have c: "map_of [(''current'', JFloat (9999 / 100)), (''currency'', JStr ''ZAR'')] ''current''
      = Some (JFloat (9999 / 100))" by simp
  have k: "map_of [(''current'', JFloat (9999 / 100)), (''currency'', JStr ''ZAR'')] ''currency''
      = Some (JStr ''ZAR'')" by simp
  have v: "valid_record (1000, 1000) test_product" by (simp add: test_product_valid py_int_1000)
  have r: "record_id (1000, 1000) test_product = JStr ''123''"
    by (simp add: record_id_def test_product_derive)
  have a: "upsert_product example_engine empty_db (1000, 1000) test_product
     = (True, written example_engine empty_db (JStr ''123'') test_product 1000)"
    using upsert_product_valid[OF v, of example_engine empty_db] by (simp add: r py_int_1000)
  from price_round_trip[OF p c k a] p c k a show ?thesis by (simp add: r)
qed

subsection \<open>Counts and retrieval after a bulk upsert\<close>

text \<open>
  C2, as amended. For a batch of N records of which K lack a url and the others are
  valid, \<open>bulk_upsert_products\<close> returns \<open>(N - K, K)\<close>. Afterwards
  \<open>get_product_by_id\<close> under the identity of a valid record finds the last valid record
  of the batch that is stored under the same key; so it finds that record itself
  when no later record of the batch has the same key. A failing record, wherever it
  stands in any batch, only adds one to the failure count: the records before and after
  it are processed as if it were not there.
\<close>

theorem bulk_upsert_counts_and_retrieval:
  assumes h: "\<forall>(tm, pd) \<in> set batch. lacks_url pd \<or> valid_record tm pd"
    and k: "K = length (filter (\<lambda>(tm, pd). lacks_url pd) batch)"
    and r: "bulk_upsert_products eng db batch = (counts, db')"
  shows "counts = (length batch - K, K) \<and>
     (\<forall>(tm, pd) \<in> set batch. \<not> lacks_url pd \<longrightarrow>
        (\<exists>pre tm' pd' post.
           batch = pre @ (tm', pd') # post \<and> \<not> lacks_url pd' \<and>
           key_of eng (record_id tm' pd') = key_of eng (record_id tm pd) \<and>
           (\<forall>(tm'', pd'') \<in> set post.
              lacks_url pd'' \<or> key_of eng (record_id tm'' pd'') \<noteq> key_of eng (record_id tm pd)) \<and>
           get_product_by_id eng db' (record_id tm pd) = Some pd')) \<and>
     (\<forall>pre tm pd post.
        batch = pre @ (tm, pd) # post \<and> \<not> lacks_url pd \<and>
        (\<forall>(tm', pd') \<in> set post.
           lacks_url pd' \<or> key_of eng (record_id tm' pd') \<noteq> key_of eng (record_id tm pd))
        \<longrightarrow> get_product_by_id eng db' (record_id tm pd) = Some pd) \<and>
     (\<forall>pre tm pd post. \<not> valid_record tm pd \<longrightarrow>
        bulk_upsert_products eng db (pre @ (tm, pd) # post) =
          (let r = bulk_upsert_products eng db (pre @ post)
           in ((fst (fst r), snd (fst r) + 1), snd r)))"
proof -
  have iff: "valid_record tm pd \<longleftrightarrow> \<not> lacks_url pd" if "(tm, pd) \<in> set batch" for tm pd
    using h that lacks_url_invalid[of pd tm] by auto
  have f1: "filter (\<lambda>(tm, pd). valid_record tm pd) batch = filter (\<lambda>(tm, pd). \<not> lacks_url pd) batch"
    by (rule filter_cong) (auto simp: iff)
  have f2: "filter (\<lambda>(tm, pd). \<not> valid_record tm pd) batch = filter (\<lambda>(tm, pd). lacks_url pd) batch"
    by (rule filter_cong) (auto simp: iff)
  have len: "length (filter (\<lambda>(tm, pd). \<not> lacks_url pd) batch) = length batch - K"
    using sum_length_filter_compl[of "\<lambda>(tm, pd). lacks_url pd" batch] k
    by (simp add: case_prod_unfold)
  from r have c: "counts = fst (bulk_upsert_products eng db batch)"
    and d: "db' = snd (bulk_upsert_products eng db batch)" by simp_all
  have one: "counts = (length batch - K, K)"
    unfolding c bulk_upsert_counts f1 f2 len k by simp
  have three: "get_product_by_id eng db' (record_id tm pd) = Some pd"
    if b: "batch = pre @ (tm, pd) # post" and nl: "\<not> lacks_url pd"
      and later: "\<forall>(tm', pd') \<in> set post.
           lacks_url pd' \<or> key_of eng (record_id tm' pd') \<noteq> key_of eng (record_id tm pd)"
    for pre tm pd post
  proof -
    from b nl iff[of tm pd] have v: "valid_record tm pd" by simp
    from later have "\<forall>(tm', pd') \<in> set post.
        \<not> valid_record tm' pd' \<or> key_of eng (record_id tm' pd') \<noteq> key_of eng (record_id tm pd)"
      using lacks_url_invalid by blast
    from bulk_last_write_wins[OF v this, of db pre] show ?thesis unfolding d b .
  qed
  have two: "\<exists>pre tm' pd' post.
           batch = pre @ (tm', pd') # post \<and> \<not> lacks_url pd' \<and>
           key_of eng (record_id tm' pd') = key_of eng (record_id tm pd) \<and>
           (\<forall>(tm'', pd'') \<in> set post.
              lacks_url pd'' \<or> key_of eng (record_id tm'' pd'') \<noteq> key_of eng (record_id tm pd)) \<and>
           get_product_by_id eng db' (record_id tm pd) = Some pd'"
    if m: "(tm, pd) \<in> set batch" and nl: "\<not> lacks_url pd" for tm pd
  proof -
    let ?P = "\<lambda>x. \<not> lacks_url (snd x) \<and>
                  key_of eng (record_id (fst x) (snd x)) = key_of eng (record_id tm pd)"
    from m nl have "\<exists>x \<in> set batch. ?P x" by force
    from split_list_last_prop[OF this] obtain pre x post where
      b: "batch = pre @ x # post" and px: "?P x" and none: "\<forall>z \<in> set post. \<not> ?P z" by blast
    obtain tm' pd' where x: "x = (tm', pd')" by (cases x)
    from px x have nl': "\<not> lacks_url pd'"
      and same: "key_of eng (record_id tm' pd') = key_of eng (record_id tm pd)" by simp_all
    from none have later: "\<forall>(tm'', pd'') \<in> set post.
        lacks_url pd'' \<or> key_of eng (record_id tm'' pd'') \<noteq> key_of eng (record_id tm pd)"
      by auto
    from b x have m': "(tm', pd') \<in> set batch" by simp
    from later same have later': "\<forall>(tm'', pd'') \<in> set post.
        lacks_url pd'' \<or> key_of eng (record_id tm'' pd'') \<noteq> key_of eng (record_id tm' pd')"
      by simp
    from three[OF b[unfolded x] nl' later']
    have g: "get_product_by_id eng db' (record_id tm' pd') = Some pd'" .
    from m nl iff have "bindable (record_id tm pd)" using valid_record_bindable by blast
    moreover from m' nl' iff have "bindable (record_id tm' pd')" using valid_record_bindable by blast
    ultimately have "get_product_by_id eng db' (record_id tm pd) = Some pd'"
      using g same by (simp add: get_product_by_id_rows)
    with b x nl' same later show ?thesis by blast
  qed
  from two have two': "\<forall>(tm, pd) \<in> set batch. \<not> lacks_url pd \<longrightarrow>
        (\<exists>pre tm' pd' post.
           batch = pre @ (tm', pd') # post \<and> \<not> lacks_url pd' \<and>
           key_of eng (record_id tm' pd') = key_of eng (record_id tm pd) \<and>
           (\<forall>(tm'', pd'') \<in> set post.
              lacks_url pd'' \<or> key_of eng (record_id tm'' pd'') \<noteq> key_of eng (record_id tm pd)) \<and>
           get_product_by_id eng db' (record_id tm pd) = Some pd')"
    by blast
  from three have three': "\<forall>pre tm pd post.
        batch = pre @ (tm, pd) # post \<and> \<not> lacks_url pd \<and>
        (\<forall>(tm', pd') \<in> set post.
           lacks_url pd' \<or> key_of eng (record_id tm' pd') \<noteq> key_of eng (record_id tm pd))
        \<longrightarrow> get_product_by_id eng db' (record_id tm pd) = Some pd"
    by blast
  from bulk_upsert_skip_failure have four: "\<forall>pre tm pd post. \<not> valid_record tm pd \<longrightarrow>
        bulk_upsert_products eng db (pre @ (tm, pd) # post) =
          (let r = bulk_upsert_products eng db (pre @ post)
           in ((fst (fst r), snd (fst r) + 1), snd r))"
    by blast
  show ?thesis by (intro conjI one two' three' four)
qed

theorem bulk_upsert_counts_and_retrieval_witness:
  "valid_record (1000, 1000) test_product \<and>
   lacks_url product_without_url \<and>
   valid_record (2000, 2000) other_product \<and>
   (1::nat) = length (filter (\<lambda>(tm, pd). lacks_url pd)
      ([((1000, 1000), test_product), ((1500, 1500), product_without_url),
        ((2000, 2000), other_product)] :: ((rat \<times> rat) \<times> pydict) list)) \<and>
   bulk_upsert_products example_engine empty_db
      [((1000, 1000), test_product), ((1500, 1500), product_without_url),
       ((2000, 2000), other_product)]
     = ((2, 1),
        written example_engine (written example_engine empty_db (JStr ''123'') test_product 1000)
          (JStr ''456'') other_product 2000) \<and>
   get_product_by_id example_engine
     (written example_engine (written example_engine empty_db (JStr ''123'') test_product 1000)
        (JStr ''456'') other_product 2000)
     (JStr ''123'') = Some test_product \<and>
   get_product_by_id example_engine
     (written example_engine (written example_engine empty_db (JStr ''123'') test_product 1000)
        (JStr ''456'') other_product 2000)
     (JStr ''456'') = Some other_product"
proof -
  let ?batch = "[((1000, 1000), test_product), ((1500, 1500), product_without_url),
       ((2000, 2000), other_product)] :: ((rat \<times> rat) \<times> pydict) list"
  let ?db = "written example_engine (written example_engine empty_db (JStr ''123'') test_product 1000)
       (JStr ''456'') other_product 2000"
  have v1: "valid_record (1000, 1000) test_product" by (simp add: test_product_valid py_int_1000)
  have v2: "valid_record (2000, 2000) other_product" by (simp add: other_product_valid py_int_2000)
  note l = product_without_url_lacks
  have nl1: "\<not> lacks_url test_product" by (simp add: lacks_url_def test_product_def)
  have nl2: "\<not> lacks_url other_product" by (simp add: lacks_url_def other_product_def)
  have r1: "record_id (1000, 1000) test_product = JStr ''123''"
    by (simp add: record_id_def test_product_derive)
  have r2: "record_id (2000, 2000) other_product = JStr ''456''"
    by (simp add: record_id_def other_product_derive)
  have h: "\<forall>(tm, pd) \<in> set ?batch. lacks_url pd \<or> valid_record tm pd"
    using v1 v2 l by simp
  have k: "(1::nat) = length (filter (\<lambda>(tm, pd). lacks_url pd) ?batch)"
    using nl1 nl2 l by simp
  have r: "bulk_upsert_products example_engine empty_db ?batch = ((2, 1), ?db)"
    using v1 v2 lacks_url_invalid[OF l, of "(1500, 1500)"]
    by (simp add: bulk_upsert_Cons bulk_upsert_Nil r1 r2 py_int_1000 py_int_2000 Let_def)
  note t = bulk_upsert_counts_and_retrieval[OF h k r]
  note w = t[THEN conjunct2, THEN conjunct2, THEN conjunct1, rule_format]
  have a: "get_product_by_id example_engine ?db (JStr ''123'') = Some test_product"
    using w[of "[]" "(1000, 1000)" test_product
        "[((1500, 1500), product_without_url), ((2000, 2000), other_product)]"] nl1 l
    by (simp add: r1 r2 key_of_text_id)
  have b: "get_product_by_id example_engine ?db (JStr ''456'') = Some other_product"
    using w[of "[((1000, 1000), test_product), ((1500, 1500), product_without_url)]"
        "(2000, 2000)" other_product "[]"] nl2
    by (simp add: r2)
  show ?thesis by (intro conjI v1 l v2 k r a b)
qed

text \<open>
  The claim as stated, that each of the valid records is afterwards retrievable by its
  id, fails for a batch that holds two crawls of one page: both are counted as stored,
  the table holds one row, and the id retrieves the second record, not the first.
\<close>

theorem bulk_upsert_same_identity_counterexample:
  "valid_record (1000, 1000) test_product \<and>
   valid_record (2000, 2000) test_product_v2 \<and>
   record_id (1000, 1000) test_product = JStr ''123'' \<and>
   fst (bulk_upsert_products example_engine empty_db
          [((1000, 1000), test_product), ((2000, 2000), test_product_v2)]) = (2, 0) \<and>
   length (products (snd (bulk_upsert_products example_engine empty_db
          [((1000, 1000), test_product), ((2000, 2000), test_product_v2)]))) = 1 \<and>
   get_product_by_id example_engine
       (snd (bulk_upsert_products example_engine empty_db
          [((1000, 1000), test_product), ((2000, 2000), test_product_v2)]))
       (JStr ''123'') = Some test_product_v2 \<and>
   test_product_v2 \<noteq> test_product"
proof -
  have v1: "valid_record (1000, 1000) test_product" by (simp add: test_product_valid py_int_1000)
  have v2: "valid_record (2000, 2000) test_product_v2" by (simp add: test_product_v2_valid py_int_2000)
  have r1: "record_id (1000, 1000) test_product = JStr ''123''"
    by (simp add: record_id_def test_product_derive)
  have r2: "record_id (2000, 2000) test_product_v2 = JStr ''123''"
    by (simp add: record_id_def test_product_v2_derive)
  have c: "bulk_upsert_products example_engine empty_db
       [((1000, 1000), test_product), ((2000, 2000), test_product_v2)]
     = ((2, 0), written example_engine (written example_engine empty_db (JStr ''123'') test_product 1000)
                  (JStr ''123'') test_product_v2 2000)"
    using v1 v2
    by (simp add: bulk_upsert_Cons bulk_upsert_Nil r1 r2 py_int_1000 py_int_2000 Let_def)
  have nn: "bound (JStr ''123'') \<noteq> SNull" by (simp add: bound_def)
  have bd: "bindable (JStr ''123'')" by (simp add: bindable_def)
  have l: "length (products (written example_engine
              (written example_engine empty_db (JStr ''123'') test_product 1000)
              (JStr ''123'') test_product_v2 2000)) = 1"
    by (simp add: written_eq key_of_text_id empty_db_def nn stored_row_def)
  have g: "get_product_by_id example_engine
       (written example_engine (written example_engine empty_db (JStr ''123'') test_product 1000)
          (JStr ''123'') test_product_v2 2000) (JStr ''123'') = Some test_product_v2"
    by (rule get_product_by_id_written_same[OF bd nn])
  have ne: "test_product_v2 \<noteq> test_product"
    by (simp add: test_product_def test_product_v2_def)
  show ?thesis unfolding c by (simp add: v1 v2 r1 l g ne)
qed

subsection \<open>find_products with a text query and a price range\<close>

lemma sql_int_bind: "bind (JInt i) = (case sql_int i of Inl e \<Rightarrow> Inl e | Inr j \<Rightarrow> Inr (SInt j))"
  by (simp add: sql_int_def)














lemma escape_quotes_plain: "CHR 0x22 \<notin> set q \<Longrightarrow> escape_quotes q = q"
  unfolding escape_quotes_def by (induction q) auto














text \<open>
  A price given as a text that looks like a number is stored as that number, so the
  record is within a price range that holds the number.
\<close>

lemma text_price_example:
  "extract_price product_id_text = JStr ''75'' \<and>
   p_price (stored_row example_engine (JStr ''5'') product_id_text 1000 1000) = SReal 75 \<and>
   price_ge (p_price (stored_row example_engine (JStr ''5'') product_id_text 1000 1000)) 50 \<and>
   price_le (p_price (stored_row example_engine (JStr ''5'') product_id_text 1000 1000)) 100"
proof -
  have e: "extract_price product_id_text = JStr ''75''"
    by (simp add: extract_price_def product_id_text_def dict_get_def)
  have d: "digits_value ''75'' 0 = Some 75" by code_simp
  have p: "p_price (stored_row example_engine (JStr ''5'') product_id_text 1000 1000) = SReal 75"
    by (simp add: stored_row_def e bound_def example_engine_def d)
  show ?thesis by (simp add: e p)
qed

subsection \<open>Text query with a price range\<close>




section \<open>Properties of the crawl attempt engine\<close>

lemma crawl_products_step:
  "crawl_products f c urls =
     (if urls = [] then ([], c)
      else (case f (fetch_calls c) urls (last_run_written c) (base_delay c) of
              Inl e \<Rightarrow>
                ([], c\<lparr>cache_enabled := last_run_written c, fetch_calls := fetch_calls c + 1,
                       last_run_written := True\<rparr>)
            | Inr rs \<Rightarrow>
                (let p = process_results rs ([], [], round_state c (length rs));
                     c3 = snd (snd p)
                 in if fst (snd p) \<noteq> [] \<and> retry_count c3 < 3
                    then (let r = crawl_products f (retry_state c3) (fst (snd p))
                          in (fst p @ fst r,
                              (snd r)\<lparr>base_delay := base_delay c3, last_run_written := True\<rparr>))
                    else (fst p, c3\<lparr>last_run_written := True\<rparr>))))"
  by (subst crawl_products.simps)
     (simp add: Let_def finish_def retry_state_def round_state_def split: sum.splits)

text \<open>What the loop over the results leaves alone.\<close>

lemma process_one_frame:
  "base_delay (snd (snd (process_one r acc))) = base_delay (snd (snd acc)) \<and>
   fetch_calls (snd (snd (process_one r acc))) = fetch_calls (snd (snd acc)) \<and>
   slept (snd (snd (process_one r acc))) = slept (snd (snd acc)) \<and>
   urls_processed (snd (snd (process_one r acc))) = urls_processed (snd (snd acc)) \<and>
   last_run_written (snd (snd (process_one r acc))) = last_run_written (snd (snd acc)) \<and>
   cache_enabled (snd (snd (process_one r acc))) = cache_enabled (snd (snd acc))"
  by (cases acc) (simp add: process_one_def Let_def split: sum.splits option.splits)

lemma process_results_frame:
  "base_delay (snd (snd (process_results rs acc))) = base_delay (snd (snd acc)) \<and>
   fetch_calls (snd (snd (process_results rs acc))) = fetch_calls (snd (snd acc)) \<and>
   slept (snd (snd (process_results rs acc))) = slept (snd (snd acc)) \<and>
   urls_processed (snd (snd (process_results rs acc))) = urls_processed (snd (snd acc)) \<and>
   last_run_written (snd (snd (process_results rs acc))) = last_run_written (snd (snd acc)) \<and>
   cache_enabled (snd (snd (process_results rs acc))) = cache_enabled (snd (snd acc))"
  by (induction rs arbitrary: acc) (simp_all add: process_one_frame)

lemma crawl_products_base_delay: "base_delay (snd (crawl_products f c urls)) = base_delay c"
proof (induction "3 - retry_count c" arbitrary: c urls rule: less_induct)
  case less
  show ?case
    by (subst crawl_products_step)
       (simp add: Let_def process_results_frame round_state_def split: sum.splits)
qed

lemma crawl_products_retry_count_mono:
  "retry_count c \<le> retry_count (snd (crawl_products f c urls))"
proof (induction "3 - retry_count c" arbitrary: c urls rule: less_induct)
  case less
  show ?case
  proof (cases "urls = []")
    case True
    then show ?thesis by (subst crawl_products_step) simp
  next
    case False
    show ?thesis
    proof (cases "f (fetch_calls c) urls (last_run_written c) (base_delay c)")
      case (Inl e)
      with False show ?thesis by (subst crawl_products_step) simp
    next
      case (Inr rs)
      let ?p = "process_results rs ([], [], round_state c (length rs))"
      let ?c3 = "snd (snd ?p)"
      have r3: "retry_count ?c3 = retry_count c"
        by (simp add: process_results_retry_count round_state_def)
      show ?thesis
      proof (cases "fst (snd ?p) \<noteq> [] \<and> retry_count ?c3 < 3")
        case True
        have "3 - retry_count (retry_state ?c3) < 3 - retry_count c"
          using True r3 by (auto simp add: retry_state_def)
        from less[OF this, of "fst (snd ?p)"] r3
        have "retry_count c \<le> retry_count (snd (crawl_products f (retry_state ?c3) (fst (snd ?p))))"
          by (simp add: retry_state_def)
        with False Inr True show ?thesis
          by (subst crawl_products_step) (simp add: Let_def)
      next
        case nr: False
        with False Inr r3 show ?thesis
          by (subst crawl_products_step) (auto simp add: Let_def)
      qed
    qed
  qed
qed

lemma crawl_products_bounds:
  "retry_count (snd (crawl_products f c urls)) \<le> max 3 (retry_count c) \<and>
   fetch_calls (snd (crawl_products f c urls)) \<le> fetch_calls c + 1 + (3 - retry_count c)"
proof (induction "3 - retry_count c" arbitrary: c urls rule: less_induct)
  case less
  show ?case
  proof (cases "urls = []")
    case True
    then show ?thesis by (subst (1 2) crawl_products_step) simp
  next
    case False
    show ?thesis
    proof (cases "f (fetch_calls c) urls (last_run_written c) (base_delay c)")
      case (Inl e)
      with False show ?thesis by (subst (1 2) crawl_products_step) simp
    next
      case (Inr rs)
      let ?p = "process_results rs ([], [], round_state c (length rs))"
      let ?c3 = "snd (snd ?p)"
      have r3: "retry_count ?c3 = retry_count c"
        by (simp add: process_results_retry_count round_state_def)
      have f3: "fetch_calls ?c3 = fetch_calls c + 1"
        by (simp add: process_results_frame round_state_def)
      show ?thesis
      proof (cases "fst (snd ?p) \<noteq> [] \<and> retry_count ?c3 < 3")
        case True
        have "3 - retry_count (retry_state ?c3) < 3 - retry_count c"
          using True r3 by (auto simp add: retry_state_def)
        from less[OF this, of "fst (snd ?p)"] r3 f3 True
        have "retry_count (snd (crawl_products f (retry_state ?c3) (fst (snd ?p)))) \<le> max 3 (retry_count c)"
          and "fetch_calls (snd (crawl_products f (retry_state ?c3) (fst (snd ?p))))
                 \<le> fetch_calls c + 1 + (3 - retry_count c)"
          by (auto simp add: retry_state_def)
        with False Inr True show ?thesis
          by (subst (1 2) crawl_products_step) (simp add: Let_def)
      next
        case nr: False
        with False Inr r3 f3 show ?thesis
          by (subst (1 2) crawl_products_step) (auto simp add: Let_def)
      qed
    qed
  qed
qed

lemma process_results_rate_limited:
  assumes "list_all rate_limited_result rs"
  shows "process_results rs (results, retry_urls, c) =
     (results, retry_urls @ map r_url rs,
      c\<lparr>rate_limited := rate_limited c + length rs, failed := failed c + length rs\<rparr>)"
  using assms
proof (induction rs arbitrary: retry_urls c)
  case Nil
  then show ?case by simp
next
  case (Cons r rs)
  from Cons.prems have r: "rate_limited_result r" and rs: "list_all rate_limited_result rs"
    by simp_all
  from r have one: "process_one r (results, retry_urls, c) =
      (results, retry_urls @ [r_url r],
       c\<lparr>rate_limited := rate_limited c + 1, failed := failed c + 1\<rparr>)"
    by (auto simp: process_one_def rate_limited_result_def Let_def split: option.splits)
  show ?case
    by (simp add: one Cons.IH[OF rs])
qed

lemma always_rate_limited_answer:
  assumes "always_rate_limited f"
  obtains rs where "f k urls cache delay = Inr rs" "map r_url rs = urls"
    "list_all rate_limited_result rs" "length rs = length urls"
proof -
  from assms obtain rs where rs: "f k urls cache delay = Inr rs" "map r_url rs = urls"
    "list_all rate_limited_result rs"
    unfolding always_rate_limited_def by blast
  from rs(2) have "length rs = length urls" by (metis length_map)
  with rs show thesis by (rule that)
qed

lemma crawl_products_all_rate_limited:
  assumes f: "always_rate_limited f" and ne: "urls \<noteq> []" and k: "retry_count c \<le> 3"
  shows "crawl_products f c urls =
     ([], c\<lparr>cache_enabled := last_run_written c,
            fetch_calls := fetch_calls c + (4 - retry_count c),
            urls_processed := length urls,
            rate_limited := rate_limited c + (4 - retry_count c) * length urls,
            failed := failed c + (4 - retry_count c) * length urls,
            retry_count := 3,
            slept := slept c @ map (\<lambda>i. 5 * i) [retry_count c + 1..<4],
            last_run_written := True\<rparr>)"
  using ne k
proof (induction "3 - retry_count c" arbitrary: c rule: less_induct)
  case less
  from always_rate_limited_answer[OF f, of "fetch_calls c" urls "last_run_written c" "base_delay c"]
  obtain rs where rs: "f (fetch_calls c) urls (last_run_written c) (base_delay c) = Inr rs"
    "map r_url rs = urls" "list_all rate_limited_result rs" "length rs = length urls" by blast
  let ?c2 = "round_state c (length urls)"
  let ?c3 = "?c2\<lparr>rate_limited := rate_limited ?c2 + length urls, failed := failed ?c2 + length urls\<rparr>"
  have p: "process_results rs ([], [], round_state c (length rs)) = ([], urls, ?c3)"
    using process_results_rate_limited[OF rs(3), of "[]" "[]" "round_state c (length rs)"] rs(2,4)
    by simp
  show ?case
  proof (cases "retry_count c < 3")
    case True
    have m: "3 - retry_count (retry_state ?c3) < 3 - retry_count c"
      using True by (simp add: retry_state_def round_state_def)
    have k': "retry_count (retry_state ?c3) \<le> 3"
      using True by (simp add: retry_state_def round_state_def)
    note ih = less(1)[OF m less.prems(1) k']
    have ar: "(4 - retry_count c) * length urls = length urls + (3 - retry_count c) * length urls"
      using True by (cases "retry_count c") (simp_all add: algebra_simps Suc_diff_le)
    have up: "[Suc (retry_count c)..<4] = Suc (retry_count c) # [Suc (Suc (retry_count c))..<4]"
      using True by (simp add: upt_rec)
    have a1: "Suc (fetch_calls c + 3 - retry_count c) = fetch_calls c + 4 - retry_count c"
      using True by arith
    show ?thesis
      apply (subst crawl_products_step)
      using less.prems True
      apply (simp add: rs(1) p Let_def ih)
      apply (simp add: retry_state_def round_state_def ar)
      apply (simp add: up a1 add.assoc)
      done
  next
    case False
    with less.prems have e: "retry_count c = 3" by simp
    show ?thesis
      apply (subst crawl_products_step)
      using less.prems e
      apply (simp add: rs(1) p Let_def)
      apply (simp add: round_state_def)
      done
  qed
qed

lemma answer_429_always: "always_rate_limited answer_429"
  by (simp add: always_rate_limited_def answer_429_def list_all_iff rate_limited_result_def
      rate_limit_codes_def comp_def)

lemma first_round_429:
  "first_call_429 (fetch_calls new_crawler) [''https://www.example.com/product/123'']
       (last_run_written new_crawler) (base_delay new_crawler)
     = Inr [\<lparr>r_url = ''https://www.example.com/product/123'', r_success = False,
             r_status_code = Some 429, r_processed = Inr None\<rparr>]"
  by (simp add: first_call_429_def answer_429_def new_crawler_def)

lemma first_round_processed:
  "process_results
       [\<lparr>r_url = ''https://www.example.com/product/123'', r_success = False,
          r_status_code = Some 429, r_processed = Inr None\<rparr>]
       ([], [], round_state new_crawler (length
          [\<lparr>r_url = ''https://www.example.com/product/123'', r_success = False,
             r_status_code = Some 429, r_processed = Inr None\<rparr>]))
     = ([], [''https://www.example.com/product/123''],
        (round_state new_crawler 1)\<lparr>rate_limited := 1, failed := 1\<rparr>)"
  by (simp add: process_one_def rate_limit_codes_def Let_def round_state_def new_crawler_def)

lemma second_round:
  "crawl_products first_call_429
       (retry_state ((round_state new_crawler 1)\<lparr>rate_limited := 1, failed := 1\<rparr>))
       [''https://www.example.com/product/123'']
     = ([[(''url'', JStr ''https://www.example.com/product/123''), (''title'', JStr ''Test Product'')]],
        (retry_state ((round_state new_crawler 1)\<lparr>rate_limited := 1, failed := 1\<rparr>))
          \<lparr>cache_enabled := False, fetch_calls := 2, urls_processed := 1,
            successful := 1, products_found := 1,
            saved := [[(''url'', JStr ''https://www.example.com/product/123''),
                       (''title'', JStr ''Test Product'')]],
            last_run_written := True\<rparr>)"
  by (subst crawl_products_step)
     (simp add: first_call_429_def fetched_page_def process_one_def Let_def round_state_def
        retry_state_def new_crawler_def)

subsection \<open>A batch that is rate-limited on every round\<close>

text \<open>
  C4. When every url's outcome is a rate-limit status on every round, \<open>crawl_products\<close>
  on a crawler that has not retried yet returns (the function is total) after 3 retry
  rounds, 4 calls of the fetch engine in all, with no record: \<open>successful\<close> and
  \<open>products_found\<close> are unchanged, and every url is counted in \<open>failed\<close> and in
  \<open>rate_limited\<close> once per round. Whatever the fetch engine answers, a crawl that
  starts with \<open>retry_count = 0\<close> makes at most 4 calls and ends with \<open>retry_count\<close> at
  most 3.
\<close>

theorem crawl_products_rate_limited_terminates:
  assumes "always_rate_limited arun_many" and "urls \<noteq> []" and "retry_count c = 0"
  shows "fst (crawl_products arun_many c urls) = [] \<and>
     retry_count (snd (crawl_products arun_many c urls)) = 3 \<and>
     fetch_calls (snd (crawl_products arun_many c urls)) = fetch_calls c + 4 \<and>
     slept (snd (crawl_products arun_many c urls)) = slept c @ [5, 10, 15] \<and>
     urls_processed (snd (crawl_products arun_many c urls)) = length urls \<and>
     failed (snd (crawl_products arun_many c urls)) = failed c + 4 * length urls \<and>
     rate_limited (snd (crawl_products arun_many c urls)) = rate_limited c + 4 * length urls \<and>
     successful (snd (crawl_products arun_many c urls)) = successful c \<and>
     products_found (snd (crawl_products arun_many c urls)) = products_found c \<and>
     saved (snd (crawl_products arun_many c urls)) = saved c \<and>
     (\<forall>g us. retry_count (snd (crawl_products g c us)) \<le> 3 \<and>
             fetch_calls (snd (crawl_products g c us)) \<le> fetch_calls c + 4)"
proof -
  have k: "retry_count c \<le> 3" using assms(3) by simp
  have u: "[Suc 0..<4] = [1, 2, 3]" by (simp add: upt_rec)
  note e = crawl_products_all_rate_limited[OF assms(1,2) k]
  have b: "retry_count (snd (crawl_products g c us)) \<le> 3 \<and>
             fetch_calls (snd (crawl_products g c us)) \<le> fetch_calls c + 4" for g us
    using crawl_products_bounds[of g c us] assms(3) by simp
  show ?thesis
    unfolding e using assms(3) b by (simp add: u)
qed

theorem crawl_products_rate_limited_terminates_witness:
  "always_rate_limited answer_429 \<and>
   [''https://www.example.com/product/123'', ''https://www.example.com/product/456''] \<noteq> [] \<and>
   retry_count new_crawler = 0 \<and>
   fst (crawl_products answer_429 new_crawler
      [''https://www.example.com/product/123'', ''https://www.example.com/product/456'']) = [] \<and>
   retry_count (snd (crawl_products answer_429 new_crawler
      [''https://www.example.com/product/123'', ''https://www.example.com/product/456''])) = 3 \<and>
   fetch_calls (snd (crawl_products answer_429 new_crawler
      [''https://www.example.com/product/123'', ''https://www.example.com/product/456''])) = 4 \<and>
   failed (snd (crawl_products answer_429 new_crawler
      [''https://www.example.com/product/123'', ''https://www.example.com/product/456''])) = 8 \<and>
   rate_limited (snd (crawl_products answer_429 new_crawler
      [''https://www.example.com/product/123'', ''https://www.example.com/product/456''])) = 8 \<and>
   successful (snd (crawl_products answer_429 new_crawler
      [''https://www.example.com/product/123'', ''https://www.example.com/product/456''])) = 0"
proof -
  have n: "[''https://www.example.com/product/123'', ''https://www.example.com/product/456''] \<noteq> []"
    by simp
  have z: "retry_count new_crawler = 0" by (simp add: new_crawler_def)
  note t = crawl_products_rate_limited_terminates[OF answer_429_always n z]
  have v: "fetch_calls new_crawler = 0" "failed new_crawler = 0" "rate_limited new_crawler = 0"
    "successful new_crawler = 0" by (simp_all add: new_crawler_def)
  from t have
    "fst (crawl_products answer_429 new_crawler
      [''https://www.example.com/product/123'', ''https://www.example.com/product/456'']) = []"
    "retry_count (snd (crawl_products answer_429 new_crawler
      [''https://www.example.com/product/123'', ''https://www.example.com/product/456''])) = 3"
    "fetch_calls (snd (crawl_products answer_429 new_crawler
      [''https://www.example.com/product/123'', ''https://www.example.com/product/456''])) = 4"
    "failed (snd (crawl_products answer_429 new_crawler
      [''https://www.example.com/product/123'', ''https://www.example.com/product/456''])) = 8"
    "rate_limited (snd (crawl_products answer_429 new_crawler
      [''https://www.example.com/product/123'', ''https://www.example.com/product/456''])) = 8"
    "successful (snd (crawl_products answer_429 new_crawler
      [''https://www.example.com/product/123'', ''https://www.example.com/product/456''])) = 0"
    by (simp_all add: v)
  with answer_429_always n z show ?thesis by (intro conjI)
qed

subsection \<open>One retry round\<close>

text \<open>
  C5. When a round leaves a non-empty retry list and \<open>retry_count\<close> is below 3, the
  engine bumps \<open>retry_count\<close> to the round number, sleeps 5 times the round number
  seconds, widens the delay window by the round number plus one, calls itself on exactly
  the retry list, appends the records of that call to those of the round, and puts the
  delay window back to what it was when the round began. Every call of
  \<open>crawl_products\<close>, whatever happens in it, returns with the delay window it was
  entered with, and \<open>retry_count\<close>, which lives in the crawler's \<open>stats\<close>, never goes
  down.
\<close>

theorem retry_round:
  assumes "urls \<noteq> []"
    and "arun_many (fetch_calls c) urls (last_run_written c) (base_delay c) = Inr crawl_results"
    and "process_results crawl_results ([], [], round_state c (length crawl_results))
           = (results, retry_urls, c3)"
    and "retry_urls \<noteq> []" and "retry_count c3 < 3"
  shows "crawl_products arun_many c urls =
           (results @ fst (crawl_products arun_many (retry_state c3) retry_urls),
            (snd (crawl_products arun_many (retry_state c3) retry_urls))
              \<lparr>base_delay := base_delay c, last_run_written := True\<rparr>) \<and>
         retry_count (retry_state c3) = retry_count c + 1 \<and>
         slept (retry_state c3) = slept c @ [5 * (retry_count c + 1)] \<and>
         base_delay (retry_state c3) =
           (fst (base_delay c) * of_nat (retry_count c + 1 + 1),
            snd (base_delay c) * of_nat (retry_count c + 1 + 1)) \<and>
         retry_count c + 1 \<le> retry_count (snd (crawl_products arun_many c urls)) \<and>
         (\<forall>g c' us. base_delay (snd (crawl_products g c' us)) = base_delay c' \<and>
                    retry_count c' \<le> retry_count (snd (crawl_products g c' us)))"
proof -
  have fr: "base_delay c3 = base_delay c" "slept c3 = slept c" "retry_count c3 = retry_count c"
    using process_results_frame[of crawl_results "([], [], round_state c (length crawl_results))"]
      process_results_retry_count[of crawl_results "([], [], round_state c (length crawl_results))"]
      assms(3)
    by (simp_all add: round_state_def)
  have step: "crawl_products arun_many c urls =
           (results @ fst (crawl_products arun_many (retry_state c3) retry_urls),
            (snd (crawl_products arun_many (retry_state c3) retry_urls))
              \<lparr>base_delay := base_delay c, last_run_written := True\<rparr>)"
    using assms(5) fr(3) by (subst crawl_products_step) (simp add: assms(1-4) Let_def fr(1,2))
  have mono: "retry_count (retry_state c3)
                \<le> retry_count (snd (crawl_products arun_many (retry_state c3) retry_urls))"
    by (rule crawl_products_retry_count_mono)
  have rs: "retry_count (retry_state c3) = retry_count c + 1"
    "slept (retry_state c3) = slept c @ [5 * (retry_count c + 1)]"
    "base_delay (retry_state c3) =
           (fst (base_delay c) * of_nat (retry_count c + 1 + 1),
            snd (base_delay c) * of_nat (retry_count c + 1 + 1))"
    by (simp_all add: retry_state_def fr)
  have last: "retry_count c + 1 \<le> retry_count (snd (crawl_products arun_many c urls))"
    unfolding step using mono rs(1) by simp
  have gen: "base_delay (snd (crawl_products g c' us)) = base_delay c' \<and>
                    retry_count c' \<le> retry_count (snd (crawl_products g c' us))" for g c' us
    by (simp add: crawl_products_base_delay crawl_products_retry_count_mono)
  show ?thesis
    by (intro conjI allI step rs last gen[THEN conjunct1] gen[THEN conjunct2])
qed

theorem retry_round_witness:
  "[''https://www.example.com/product/123''] \<noteq> [] \<and>
   first_call_429 (fetch_calls new_crawler) [''https://www.example.com/product/123'']
       (last_run_written new_crawler) (base_delay new_crawler)
     = Inr [\<lparr>r_url = ''https://www.example.com/product/123'', r_success = False,
             r_status_code = Some 429, r_processed = Inr None\<rparr>] \<and>
   retry_count ((round_state new_crawler 1)\<lparr>rate_limited := 1, failed := 1\<rparr>) < 3 \<and>
   fst (crawl_products first_call_429 new_crawler [''https://www.example.com/product/123''])
     = [[(''url'', JStr ''https://www.example.com/product/123''), (''title'', JStr ''Test Product'')]] \<and>
   slept (snd (crawl_products first_call_429 new_crawler [''https://www.example.com/product/123'']))
     = [5] \<and>
   retry_count (snd (crawl_products first_call_429 new_crawler [''https://www.example.com/product/123'']))
     = 1 \<and>
   base_delay (retry_state ((round_state new_crawler 1)\<lparr>rate_limited := 1, failed := 1\<rparr>))
     = (2, 6) \<and>
   base_delay (snd (crawl_products first_call_429 new_crawler [''https://www.example.com/product/123'']))
     = (1, 3)"
proof -
  have n: "[''https://www.example.com/product/123''] \<noteq> []" by simp
  have l: "retry_count ((round_state new_crawler 1)\<lparr>rate_limited := 1, failed := 1\<rparr>) < 3"
    by (simp add: round_state_def new_crawler_def)
  note t = retry_round[where arun_many=first_call_429 and c=new_crawler
      and urls="[''https://www.example.com/product/123'']"
      and retry_urls="[''https://www.example.com/product/123'']" and results="[]"
      and ?c3.0="(round_state new_crawler 1)\<lparr>rate_limited := 1, failed := 1\<rparr>",
      OF n first_round_429 first_round_processed n l, THEN conjunct1]
  from t have e: "crawl_products first_call_429 new_crawler [''https://www.example.com/product/123'']
     = ([[(''url'', JStr ''https://www.example.com/product/123''), (''title'', JStr ''Test Product'')]],
        (retry_state ((round_state new_crawler 1)\<lparr>rate_limited := 1, failed := 1\<rparr>))
          \<lparr>cache_enabled := False, fetch_calls := 2, urls_processed := 1,
            successful := 1, products_found := 1,
            saved := [[(''url'', JStr ''https://www.example.com/product/123''),
                       (''title'', JStr ''Test Product'')]],
            last_run_written := True,
            base_delay := base_delay new_crawler\<rparr>)"
    unfolding second_round by simp
  have a: "fst (crawl_products first_call_429 new_crawler [''https://www.example.com/product/123''])
     = [[(''url'', JStr ''https://www.example.com/product/123''), (''title'', JStr ''Test Product'')]]"
    unfolding e by simp
  have b: "slept (snd (crawl_products first_call_429 new_crawler [''https://www.example.com/product/123'']))
     = [5]"
    unfolding e by (simp add: retry_state_def round_state_def new_crawler_def)
  have c: "retry_count (snd (crawl_products first_call_429 new_crawler [''https://www.example.com/product/123'']))
     = 1"
    unfolding e by (simp add: retry_state_def round_state_def new_crawler_def)
  have d: "base_delay (retry_state ((round_state new_crawler 1)\<lparr>rate_limited := 1, failed := 1\<rparr>))
     = (2, 6)"
    by (simp add: retry_state_def round_state_def new_crawler_def)
  have f: "base_delay (snd (crawl_products first_call_429 new_crawler [''https://www.example.com/product/123'']))
     = (1, 3)"
    unfolding e by (simp add: new_crawler_def)
  show ?thesis by (intro conjI n first_round_429 l a b c d f)
qed

section \<open>Properties of the job scheduler\<close>

lemma count_list_append: "count_list (xs @ ys) x = count_list xs x + count_list ys x"
  by (induction xs) auto

lemma count_filtered_address:
  assumes "distinct (map snd js)" "(n, a) \<in> set js"
  shows "count_list (map Some (map snd (filter P js))) (Some a) = (if P (n, a) then 1 else 0)"
  using assms
proof (induction js)
  case Nil
  then show ?case by simp
next
  case (Cons x js)
  obtain n' a' where x: "x = (n', a')" by (cases x)
  show ?case
  proof (cases "(n, a) = x")
    case True
    from Cons.prems(1) x True have "a \<notin> snd ` set js" by auto
    then have "count_list (map Some (map snd (filter P js))) (Some a) = 0"
      by (auto simp: count_list_0_iff)
    with True show ?thesis by auto
  next
    case False
    with Cons.prems have m: "(n, a) \<in> set js" by simp
    from Cons.prems(1) have d: "distinct (map snd js)" by simp
    from m Cons.prems(1) x have "a' \<noteq> a" by force
    with Cons.IH[OF d m] x show ?thesis by simp
  qed
qed

lemma checker_pass_queue:
  "sched_running s \<Longrightarrow>
     job_queue (checker_pass now_for s) = job_queue s @ map Some (due_jobs now_for s)"
  by (simp add: checker_pass_def)

lemma checker_pass_frame:
  "job_heap (checker_pass now_for s) = job_heap s \<and> jobs (checker_pass now_for s) = jobs s \<and>
   sched_db (checker_pass now_for s) = sched_db s \<and>
   sched_running (checker_pass now_for s) = sched_running s"
  by (simp add: checker_pass_def)

lemma checker_pass_count:
  assumes "sched_running s" "distinct (map snd (jobs s))" "(name, a) \<in> set (jobs s)"
  shows "count_list (job_queue (checker_pass now_for s)) (Some a) =
           count_list (job_queue s) (Some a) + (if is_due (now_for name) (job_heap s ! a) then 1 else 0)"
  using count_filtered_address[OF assms(2,3), of "\<lambda>(name, a). is_due (now_for name) (job_heap s ! a)"]
  by (simp add: checker_pass_queue[OF assms(1)] count_list_append due_jobs_def)

lemma two_job_scheduler_eq:
  "two_job_scheduler =
     \<lparr>sched_running = True, jobs = [(''PriceCheck'', 0), (''Checkers'', 1)],
      job_heap = [new_job 0 ''PriceCheck'' 24 True, new_job 0 ''Checkers'' 24 True],
      job_queue = [], sched_db = empty_db\<rparr>"
  by (simp add: two_job_scheduler_def add_job_def)

lemma finish_job_raises:
  "finish_job eng (WorkRaises msg tb) db0 job =
     ([(''error'', JStr (''Error running crawl job for '' @ retailer_name job @ '': '' @ msg)),
       (''traceback'', JStr tb)],
      job\<lparr>stats := [(''error'', JStr (''Error running crawl job for '' @ retailer_name job @ '': '' @ msg)),
                      (''traceback'', JStr tb)],
          status := ''failed'', running := False\<rparr>,
      db0)"
  by (simp add: finish_job_def Let_def)

lemma start_job_ok:
  "add_hours now (interval_hours job) = Inr t \<Longrightarrow>
     start_job now job =
       (None, job\<lparr>running := True, status := ''running'', last_run := Some now, next_run := t\<rparr>)"
  by (simp add: start_job_def Let_def)

lemma worker_iteration_continues:
  assumes "sched_running s" and "job_queue s = Some a # rest"
  shows "\<exists>job' db'. worker_iteration eng now outcome s =
           Continues (s\<lparr>job_queue := rest, job_heap := (job_heap s)[a := job'], sched_db := db'\<rparr>)
           \<and> (job', db') = snd (run_job eng now outcome (sched_db s) (job_heap s ! a))"
  using assms
  by (cases "run_job eng now outcome (sched_db s) (job_heap s ! a)")
     (auto simp: worker_iteration_def split: sum.splits)

lemma queued_two_jobs:
  "checker_pass (clock_at 1000000) two_job_scheduler =
     \<lparr>sched_running = True, jobs = [(''PriceCheck'', 0), (''Checkers'', 1)],
      job_heap = [new_job 0 ''PriceCheck'' 24 True, new_job 0 ''Checkers'' 24 True],
      job_queue = [Some 0, Some 1], sched_db = empty_db\<rparr>"
  by (simp add: two_job_scheduler_eq checker_pass_def due_jobs_def is_due_def new_job_def
      clock_at_def)

subsection \<open>What a pass of the checker puts on the queue\<close>

text \<open>
  C6, as amended. In a pass of the checker of a running scheduler, a job of the
  \<open>jobs\<close> dictionary is put on the queue, once, exactly when it is enabled, not
  running, and the clock has reached its \<open>next_run\<close>; a job that is running is never put
  on the queue. The pass changes nothing but the queue: it sets no status and leaves
  \<open>next_run\<close> alone, so a job that is on the queue and has not been taken by the worker is
  still due, and a later pass puts it on the queue again.
\<close>

theorem checker_enqueues_exactly_due_jobs:
  assumes "sched_running s" and "distinct (map snd (jobs s))" and "(name, a) \<in> set (jobs s)"
  shows
    "count_list (job_queue (checker_pass now_for s)) (Some a) =
       count_list (job_queue s) (Some a) +
       (if enabled (job_heap s ! a) \<and> \<not> running (job_heap s ! a) \<and>
           next_run (job_heap s ! a) \<le> now_for name then 1 else 0) \<and>
     (running (job_heap s ! a) \<longrightarrow>
        count_list (job_queue (checker_pass now_for s)) (Some a) = count_list (job_queue s) (Some a)) \<and>
     job_heap (checker_pass now_for s) = job_heap s \<and>
     jobs (checker_pass now_for s) = jobs s \<and>
     (is_due (now_for name) (job_heap s ! a) \<and> is_due (later name) (job_heap s ! a) \<longrightarrow>
        count_list (job_queue (checker_pass later (checker_pass now_for s))) (Some a) =
          count_list (job_queue s) (Some a) + 2)"
proof -
  note c1 = checker_pass_count[OF assms, of now_for]
  have s1: "sched_running (checker_pass now_for s)"
    "distinct (map snd (jobs (checker_pass now_for s)))"
    "(name, a) \<in> set (jobs (checker_pass now_for s))"
    using assms by (simp_all add: checker_pass_frame)
  note c2 = checker_pass_count[OF s1, of later]
  show ?thesis
    using c1 c2 by (simp add: checker_pass_frame is_due_def)
qed

theorem checker_enqueues_exactly_due_jobs_witness:
  "sched_running two_job_scheduler \<and>
   distinct (map snd (jobs two_job_scheduler)) \<and>
   (''PriceCheck'', 0) \<in> set (jobs two_job_scheduler) \<and>
   count_list (job_queue two_job_scheduler) (Some 0) = 0 \<and>
   count_list (job_queue (checker_pass (clock_at 1000000) two_job_scheduler)) (Some 0) = 1 \<and>
   count_list (job_queue (checker_pass (clock_at 61000000)
                 (checker_pass (clock_at 1000000) two_job_scheduler))) (Some 0) = 2"
proof -
  have r: "sched_running two_job_scheduler" by (simp add: two_job_scheduler_eq)
  have d: "distinct (map snd (jobs two_job_scheduler))" by (simp add: two_job_scheduler_eq)
  have m: "(''PriceCheck'', 0) \<in> set (jobs two_job_scheduler)" by (simp add: two_job_scheduler_eq)
  have q: "count_list (job_queue two_job_scheduler) (Some 0) = 0" by (simp add: two_job_scheduler_eq)
  have j: "job_heap two_job_scheduler ! 0 = new_job 0 ''PriceCheck'' 24 True"
    by (simp add: two_job_scheduler_eq)
  have due: "is_due (clock_at 1000000 ''PriceCheck'') (job_heap two_job_scheduler ! 0)"
    "is_due (clock_at 61000000 ''PriceCheck'') (job_heap two_job_scheduler ! 0)"
    by (simp_all add: j is_due_def new_job_def clock_at_def)
  note t = checker_enqueues_exactly_due_jobs[OF r d m, of "clock_at 1000000" "clock_at 61000000"]
  from t due have a: "count_list (job_queue (checker_pass (clock_at 1000000) two_job_scheduler)) (Some 0) = 1"
    by (simp add: q is_due_def)
  from t due have b: "count_list (job_queue (checker_pass (clock_at 61000000)
                 (checker_pass (clock_at 1000000) two_job_scheduler))) (Some 0) = 2"
    by (simp add: q)
  show ?thesis by (intro conjI r d m q a b)
qed

text \<open>
  The claim as stated, that a job already on the queue is never put there again, fails
  with two jobs due at once: the first pass queues both, the worker takes the first and
  is inside its crawl, and the pass one minute later queues the second job a second
  time (and leaves the running one alone).
\<close>

theorem checker_requeues_queued_job_counterexample:
  "job_queue (checker_pass (clock_at 1000000) two_job_scheduler) = [Some 0, Some 1] \<and>
   job_queue (worker_begin 2000000 (checker_pass (clock_at 1000000) two_job_scheduler)) = [Some 1] \<and>
   running (job_heap (worker_begin 2000000 (checker_pass (clock_at 1000000) two_job_scheduler)) ! 0) \<and>
   job_queue (checker_pass (clock_at 61000000)
      (worker_begin 2000000 (checker_pass (clock_at 1000000) two_job_scheduler)))
     = [Some 1, Some 1]"
  by (simp add: two_job_scheduler_eq checker_pass_def due_jobs_def is_due_def new_job_def
      clock_at_def worker_begin_def start_job_def add_hours_def datetime_min_def datetime_max_def
      Let_def)

subsection \<open>An exception in a job stays in the job\<close>

text \<open>
  C7. When the worker takes a job from the queue, whatever the job meets, the turn of
  the worker loop ends normally: the scheduler is still running, the rest of the queue
  is next, the \<open>jobs\<close> dictionary and every other job are as they were. When the
  crawl-and-store work of the job raises, the job ends with status \<open>failed\<close>, the error
  text and the traceback in its \<open>stats\<close>, \<open>running\<close> cleared and \<open>next_run\<close> one interval
  ahead; the database is untouched and the checker goes on queueing due jobs.
\<close>

theorem job_exception_is_contained:
  assumes "sched_running s" and "job_queue s = Some a # rest" and "a < length (job_heap s)"
  shows
    "(\<forall>outcome. \<exists>s'. worker_iteration eng now outcome s = Continues s' \<and>
        sched_running s' \<and> job_queue s' = rest \<and> jobs s' = jobs s \<and>
        length (job_heap s') = length (job_heap s) \<and>
        (\<forall>b. b \<noteq> a \<longrightarrow> job_heap s' ! b = job_heap s ! b)) \<and>
     (add_hours now (interval_hours (job_heap s ! a)) = Inr t \<longrightarrow>
        (\<exists>s'. worker_iteration eng now (WorkRaises msg tb) s = Continues s' \<and>
           status (job_heap s' ! a) = ''failed'' \<and>
           stats (job_heap s' ! a) =
             [(''error'', JStr (''Error running crawl job for '' @ retailer_name (job_heap s ! a)
                                 @ '': '' @ msg)),
              (''traceback'', JStr tb)] \<and>
           \<not> running (job_heap s' ! a) \<and>
           next_run (job_heap s' ! a) = t \<and>
           sched_db s' = sched_db s \<and>
           job_queue (checker_pass now_for s') = rest @ map Some (due_jobs now_for s')))"
proof (intro conjI allI impI)
  fix outcome
  from worker_iteration_continues[OF assms(1,2), where eng=eng and now=now and outcome=outcome]
  obtain job' db' where w: "worker_iteration eng now outcome s =
      Continues (s\<lparr>job_queue := rest, job_heap := (job_heap s)[a := job'], sched_db := db'\<rparr>)"
    by blast
  show "\<exists>s'. worker_iteration eng now outcome s = Continues s' \<and>
        sched_running s' \<and> job_queue s' = rest \<and> jobs s' = jobs s \<and>
        length (job_heap s') = length (job_heap s) \<and>
        (\<forall>b. b \<noteq> a \<longrightarrow> job_heap s' ! b = job_heap s ! b)"
    unfolding w using assms(1) by simp
next
  assume h: "add_hours now (interval_hours (job_heap s ! a)) = Inr t"
  let ?j = "job_heap s ! a"
  let ?payload = "[(''error'', JStr (''Error running crawl job for '' @ retailer_name ?j @ '': '' @ msg)),
              (''traceback'', JStr tb)]"
  let ?j' = "?j\<lparr>running := False, status := ''failed'', last_run := Some now, next_run := t,
                 stats := ?payload\<rparr>"
  have r: "run_job eng now (WorkRaises msg tb) (sched_db s) ?j = (Inr ?payload, ?j', sched_db s)"
    by (simp add: run_job_def start_job_ok[OF h] finish_job_raises)
  have w: "worker_iteration eng now (WorkRaises msg tb) s =
      Continues (s\<lparr>job_queue := rest, job_heap := (job_heap s)[a := ?j'], sched_db := sched_db s\<rparr>)"
    using assms(1,2) by (simp add: worker_iteration_def r)
  show "\<exists>s'. worker_iteration eng now (WorkRaises msg tb) s = Continues s' \<and>
           status (job_heap s' ! a) = ''failed'' \<and>
           stats (job_heap s' ! a) = ?payload \<and>
           \<not> running (job_heap s' ! a) \<and>
           next_run (job_heap s' ! a) = t \<and>
           sched_db s' = sched_db s \<and>
           job_queue (checker_pass now_for s') = rest @ map Some (due_jobs now_for s')"
    unfolding w using assms(1,3) by (simp add: checker_pass_def)
qed

theorem job_exception_is_contained_witness:
  "sched_running (checker_pass (clock_at 1000000) two_job_scheduler) \<and>
   job_queue (checker_pass (clock_at 1000000) two_job_scheduler) = Some 0 # [Some 1] \<and>
   0 < length (job_heap (checker_pass (clock_at 1000000) two_job_scheduler)) \<and>
   add_hours 2000000
     (interval_hours (job_heap (checker_pass (clock_at 1000000) two_job_scheduler) ! 0))
     = Inr 86402000000 \<and>
   (\<exists>s'. worker_iteration example_engine 2000000 (WorkRaises ''No module named pricecheck_crawler'' ''Traceback'')
            (checker_pass (clock_at 1000000) two_job_scheduler) = Continues s' \<and>
         status (job_heap s' ! 0) = ''failed'' \<and>
         stats (job_heap s' ! 0) =
           [(''error'', JStr ''Error running crawl job for PriceCheck: No module named pricecheck_crawler''),
            (''traceback'', JStr ''Traceback'')] \<and>
         \<not> running (job_heap s' ! 0) \<and>
         sched_running s' \<and> job_queue s' = [Some 1] \<and>
         job_heap s' ! 1 = new_job 0 ''Checkers'' 24 True)"
proof -
  let ?s = "checker_pass (clock_at 1000000) two_job_scheduler"
  have r: "sched_running ?s" by (simp add: queued_two_jobs)
  have q: "job_queue ?s = Some 0 # [Some 1]" by (simp add: queued_two_jobs)
  have l: "0 < length (job_heap ?s)" by (simp add: queued_two_jobs)
  have h: "add_hours 2000000 (interval_hours (job_heap ?s ! 0)) = Inr 86402000000"
    by (simp add: queued_two_jobs new_job_def add_hours_def datetime_min_def datetime_max_def Let_def)
  note t = job_exception_is_contained[OF r q l, where eng=example_engine and now=2000000
      and t=86402000000
      and msg="''No module named pricecheck_crawler''" and tb="''Traceback''"
      and now_for="clock_at 61000000"]
  from t[THEN conjunct2, rule_format, OF h] obtain s' where
    w: "worker_iteration example_engine 2000000 (WorkRaises ''No module named pricecheck_crawler'' ''Traceback'') ?s
          = Continues s'"
    and f: "status (job_heap s' ! 0) = ''failed''"
      "stats (job_heap s' ! 0) =
         [(''error'', JStr (''Error running crawl job for '' @ retailer_name (job_heap ?s ! 0)
                                 @ '': '' @ ''No module named pricecheck_crawler'')),
          (''traceback'', JStr ''Traceback'')]"
      "\<not> running (job_heap s' ! 0)"
    by blast
  from t[THEN conjunct1, rule_format,
      of "WorkRaises ''No module named pricecheck_crawler'' ''Traceback''"] w
  have g: "sched_running s'" "job_queue s' = [Some 1]" "job_heap s' ! 1 = job_heap ?s ! 1"
    by auto
  have n: "retailer_name (job_heap ?s ! 0) = ''PriceCheck''"
    "job_heap ?s ! 1 = new_job 0 ''Checkers'' 24 True"
    by (simp_all add: queued_two_jobs new_job_def)
  from f(2) have f2: "stats (job_heap s' ! 0) =
           [(''error'', JStr ''Error running crawl job for PriceCheck: No module named pricecheck_crawler''),
            (''traceback'', JStr ''Traceback'')]"
    by (simp add: n(1))
  from w f(1) f2 f(3) g n(2) have
    "\<exists>s'. worker_iteration example_engine 2000000 (WorkRaises ''No module named pricecheck_crawler'' ''Traceback'') ?s
            = Continues s' \<and>
         status (job_heap s' ! 0) = ''failed'' \<and>
         stats (job_heap s' ! 0) =
           [(''error'', JStr ''Error running crawl job for PriceCheck: No module named pricecheck_crawler''),
            (''traceback'', JStr ''Traceback'')] \<and>
         \<not> running (job_heap s' ! 0) \<and>
         sched_running s' \<and> job_queue s' = [Some 1] \<and>
         job_heap s' ! 1 = new_job 0 ''Checkers'' 24 True"
    by (intro exI[of _ s']) simp
  with r q l h show ?thesis by (intro conjI)
qed

end
